theory Spec2Isabelle
  imports Main "HOL-Library.Product_Lexorder" "HOL-Library.Multiset"
begin

section \<open>Python strings and the built-ins the program calls\<close>

text \<open>
  The program is \<^verbatim>\<open>src/main.py\<close>. A Python string is modelled as a \<open>string\<close>
  whose characters are the code points below 256. The built-ins used by the program are
  modelled on that range: \<^verbatim>\<open>str.strip()\<close>, \<^verbatim>\<open>str.split('/')\<close>, \<^verbatim>\<open>str.zfill\<close>
  and \<^verbatim>\<open>int(str)\<close>.

  A cell of a table read from a CSV file is a string, a missing value (a float NaN) or a
  whole number; \<open>py_str\<close> is \<^verbatim>\<open>str(cell)\<close>. Floats other than NaN are not modelled.
\<close>

datatype cell = Str string | NaN | Num int

text \<open>\<^verbatim>\<open>str.isspace\<close> on code points below 256: the characters \<^verbatim>\<open>strip()\<close> removes.\<close>

definition is_space :: "char \<Rightarrow> bool" where
  "is_space c = ((of_char c :: nat) \<in> {9, 10, 11, 12, 13, 28, 29, 30, 31, 32, 133, 160})"

text \<open>
  The white space \<^verbatim>\<open>int()\<close> skips around a literal; it does not accept the
  separators 28 to 31.
\<close>

definition is_int_space :: "char \<Rightarrow> bool" where
  "is_int_space c = ((of_char c :: nat) \<in> {9, 10, 11, 12, 13, 32, 133, 160})"

definition is_digit :: "char \<Rightarrow> bool" where
  "is_digit c = (48 \<le> (of_char c :: nat) \<and> (of_char c :: nat) \<le> 57)"

definition digit_val :: "char \<Rightarrow> int" where
  "digit_val c = int (of_char c) - 48"

definition lstrip_with :: "(char \<Rightarrow> bool) \<Rightarrow> string \<Rightarrow> string" where
  "lstrip_with sp s = dropWhile sp s"

definition rstrip_with :: "(char \<Rightarrow> bool) \<Rightarrow> string \<Rightarrow> string" where
  "rstrip_with sp s = rev (dropWhile sp (rev s))"

definition strip_with :: "(char \<Rightarrow> bool) \<Rightarrow> string \<Rightarrow> string" where
  "strip_with sp s = rstrip_with sp (lstrip_with sp s)"

definition py_strip :: "string \<Rightarrow> string" where
  "py_strip s = strip_with is_space s"

text \<open>
  \<^verbatim>\<open>s.split(c)\<close> for a separator of one character: one field more than there are
  separators, empty fields kept.
\<close>

fun py_split :: "char \<Rightarrow> string \<Rightarrow> string list" where
  "py_split c [] = [[]]"
| "py_split c (x # xs) =
     (if x = c then [] # py_split c xs
      else (case py_split c xs of [] \<Rightarrow> [[x]] | f # fs \<Rightarrow> (x # f) # fs))"

text \<open>\<^verbatim>\<open>c.join(fields)\<close>, the inverse of \<open>py_split\<close>.\<close>

fun py_join :: "char \<Rightarrow> string list \<Rightarrow> string" where
  "py_join c [] = []"
| "py_join c [f] = f"
| "py_join c (f # g # r) = f @ c # py_join c (g # r)"

text \<open>
  \<^verbatim>\<open>s.zfill(w)\<close>: a string of length \<open>w\<close> or more is returned as it is; a shorter
  one is padded with zeros on the left, after a leading sign.
\<close>

definition zfill :: "nat \<Rightarrow> string \<Rightarrow> string" where
  "zfill w s =
     (if w \<le> length s then s
      else (case s of
              [] \<Rightarrow> replicate w (CHR ''0'')
            | c # r \<Rightarrow>
                if c = CHR ''+'' \<or> c = CHR ''-''
                then c # replicate (w - length s) (CHR ''0'') @ r
                else replicate (w - length s) (CHR ''0'') @ s))"

text \<open>
  \<^verbatim>\<open>int(s)\<close> in base ten: white space around the literal is skipped, one sign is
  allowed, and the body is made of digits with single underscores between digits.
  \<open>None\<close> is the \<^verbatim>\<open>ValueError\<close>. The interpreter's optional limit on the number of
  digits is not modelled.
\<close>

fun valid_body :: "string \<Rightarrow> bool" where
  "valid_body [] = False"
| "valid_body [c] = is_digit c"
| "valid_body (c # d # r) =
     (is_digit c \<and> (if d = CHR ''_'' then valid_body r else valid_body (d # r)))"

definition body_value :: "string \<Rightarrow> int" where
  "body_value b = foldl (\<lambda>a c. 10 * a + digit_val c) 0 (filter (\<lambda>c. c \<noteq> CHR ''_'') b)"

definition py_int :: "string \<Rightarrow> int option" where
  "py_int s =
     (case strip_with is_int_space s of
        [] \<Rightarrow> None
      | c # r \<Rightarrow>
          if c = CHR ''-'' then (if valid_body r then Some (- body_value r) else None)
          else if c = CHR ''+'' then (if valid_body r then Some (body_value r) else None)
          else (if valid_body (c # r) then Some (body_value (c # r)) else None))"

text \<open>Decimal rendering of whole numbers, as \<^verbatim>\<open>str\<close> and f-strings print them.\<close>

function nat_digits :: "nat \<Rightarrow> string" where
  "nat_digits n =
     (if n < 10 then [char_of (48 + n)]
      else nat_digits (n div 10) @ [char_of (48 + n mod 10)])"
  by pat_completeness auto
termination
  by (relation "measure id") auto

declare nat_digits.simps [simp del]

definition int_str :: "int \<Rightarrow> string" where
  "int_str i = (if i < 0 then CHR ''-'' # nat_digits (nat (- i)) else nat_digits (nat i))"

fun py_str :: "cell \<Rightarrow> string" where
  "py_str (Str s) = s"
| "py_str NaN = ''nan''"
| "py_str (Num i) = int_str i"

section \<open>Date Normalizer\<close>

text \<open>
  \<^verbatim>\<open>reformat_date_string\<close> (lines 25 to 34). Nothing in the body can raise on a
  cell, so the model has no error branch; the result for anything but three fields is
  the empty string of line 34.
\<close>

definition reformat_date_string :: "cell \<Rightarrow> string" where
  "reformat_date_string d =
     (case py_split (CHR ''/'') (py_strip (py_str d)) of
        [day, month, year] \<Rightarrow> zfill 2 month @ ''/'' @ zfill 2 day @ ''/'' @ year
      | _ \<Rightarrow> '''')"

text \<open>
  \<^verbatim>\<open>parse_date_column\<close> (lines 36 to 51). \<^verbatim>\<open>pd.isna\<close> of a string is false, so the
  guard of line 41 is the comparison with \<^verbatim>\<open>'nan'\<close>. The only call that can raise is
  \<^verbatim>\<open>int(month)\<close>, and the handler of line 50 turns that into \<open>None\<close>.
\<close>

definition parse_date_column :: "cell \<Rightarrow> int option" where
  "parse_date_column date_str =
     (let s = py_strip (py_str date_str) in
      if s = ''nan'' then None
      else (case py_split (CHR ''/'') s of
              [day, month, year] \<Rightarrow> py_int month
            | _ \<Rightarrow> None))"

section \<open>Tables, the library and the environment\<close>

text \<open>
  A parsed date is year, month, day and the nanosecond of the day; the lexicographic
  order of the tuple is the chronological order.
\<close>

type_synonym timestamp = "int \<times> int \<times> int \<times> int"

definition ts_month :: "timestamp \<Rightarrow> int" where
  "ts_month t = fst (snd t)"

text \<open>
  Exceptions. \<open>ValueError\<close> is the one the program raises itself (line 59);
  \<open>MissingColumns\<close> is the library's \<^verbatim>\<open>KeyError\<close> for column labels that are not in
  the frame; \<open>MonthKeyError\<close> is the \<^verbatim>\<open>KeyError\<close> of a look-up in \<^verbatim>\<open>MONTH_NAMES\<close>;
  \<open>LibraryError\<close> is anything reading or writing a file raises; \<open>ProcessingError x\<close>
  is the \<^verbatim>\<open>Exception\<close> of line 83, whose text is \<^verbatim>\<open>Error processing CSV: \<close> followed
  by the text of \<open>x\<close>.
\<close>

datatype exn =
    ValueError string
  | MissingColumns "string list"
  | MonthKeyError int
  | LibraryError string
  | EOFError
  | ProcessingError exn

text \<open>
  A data frame is stored by column, as the library stores it: the row labels and, for
  each column name in order, the cells of that column.
\<close>

record dataframe =
  index :: "nat list"
  columns :: "(string \<times> cell list) list"

text \<open>
  The frame of lines 62 to 69 carries the two columns the program adds,
  \<^verbatim>\<open>parsed_date\<close> and \<^verbatim>\<open>parsed_month\<close>. They hold dates and months rather than
  cells, so they are fields of their own; both are dropped by the projection of line 72.
\<close>

record work_frame = dataframe +
  parsed_date :: "timestamp option list"
  parsed_month :: "int option list"

text \<open>
  What the program takes from outside: the library calls \<^verbatim>\<open>pd.read_csv\<close>,
  \<^verbatim>\<open>pd.to_datetime(..., errors='coerce', dayfirst=True)\<close> (on a whole column; \<open>None\<close>
  is the missing date), the ordering of positions behind \<^verbatim>\<open>sort_values\<close>,
  \<^verbatim>\<open>DataFrame.to_csv\<close> (\<open>None\<close> is success), and \<^verbatim>\<open>os.path.exists\<close>.
  The date parser is called with \<^verbatim>\<open>errors='coerce'\<close> and is taken to return a column
  of dates without raising.
\<close>

record env =
  read_csv :: "string \<Rightarrow> exn + dataframe"
  to_datetime :: "cell list \<Rightarrow> timestamp option list"
  argsort :: "timestamp option list \<Rightarrow> nat list"
  to_csv :: "string \<Rightarrow> dataframe \<Rightarrow> exn option"
  path_exists :: "string \<Rightarrow> bool"

definition MONTH_NAMES :: "(int \<times> string) list" where
  "MONTH_NAMES =
     [(1, ''January''), (2, ''February''), (3, ''March''), (4, ''April''),
      (5, ''May''), (6, ''June''), (7, ''July''), (8, ''August''),
      (9, ''September''), (10, ''October''), (11, ''November''), (12, ''December'')]"

definition COLUMNS_TO_KEEP :: "string list" where
  "COLUMNS_TO_KEEP =
     [''Supporter ID'', ''Supporter Email'', ''Campaign ID'', ''Organization or Company'',
      ''First Name'', ''Last Name'', ''Partner Name'', ''Address 1'', ''City'', ''State'',
      ''ZIP Code'', ''Raisers Edge Constituent ID'', ''Assigned Region'', ''Campaign Data 4'',
      ''Campaign Data 16'']"

definition COLUMNS_TO_RENAME :: "(string \<times> string) list" where
  "COLUMNS_TO_RENAME =
     [(''Campaign Data 4'', ''Donation Amount''),
      (''Campaign Data 16'', ''Monthly Donation Start Date'')]"

definition column_names :: "('a dataframe_scheme) \<Rightarrow> string list" where
  "column_names df = map fst (columns df)"

text \<open>\<^verbatim>\<open>df[c]\<close>: the cells of a column, or the library's \<^verbatim>\<open>KeyError\<close>.\<close>

definition get_column :: "('a dataframe_scheme) \<Rightarrow> string \<Rightarrow> exn + cell list" where
  "get_column df c =
     (case map_of (columns df) c of None \<Rightarrow> Inl (MissingColumns [c]) | Some v \<Rightarrow> Inr v)"

text \<open>\<^verbatim>\<open>df[c] = v\<close>: replaces the column in place, or appends it.\<close>

definition set_column :: "dataframe \<Rightarrow> string \<Rightarrow> cell list \<Rightarrow> dataframe" where
  "set_column df c v =
     (if c \<in> set (column_names df)
      then df\<lparr>columns := map (\<lambda>(c', v'). if c' = c then (c', v) else (c', v')) (columns df)\<rparr>
      else df\<lparr>columns := columns df @ [(c, v)]\<rparr>)"

text \<open>Selection by a boolean series, and selection by a list of positions.\<close>

definition keep_rows :: "bool list \<Rightarrow> 'a list \<Rightarrow> 'a list" where
  "keep_rows row_mask xs = map snd (filter fst (zip row_mask xs))"

definition take_rows :: "nat list \<Rightarrow> 'a list \<Rightarrow> 'a list" where
  "take_rows perm xs = map (\<lambda>i. xs ! i) perm"

definition select_rows :: "bool list \<Rightarrow> work_frame \<Rightarrow> work_frame" where
  "select_rows row_mask df =
     \<lparr>index = keep_rows row_mask (index df),
      columns = map (\<lambda>(c, v). (c, keep_rows row_mask v)) (columns df),
      parsed_date = keep_rows row_mask (parsed_date df),
      parsed_month = keep_rows row_mask (parsed_month df)\<rparr>"

text \<open>
  \<^verbatim>\<open>sort_values(by="parsed_date")\<close>: the library orders the positions of the key
  column and takes every column, and the row labels, at those positions.
\<close>

definition sort_values :: "env \<Rightarrow> work_frame \<Rightarrow> work_frame" where
  "sort_values e df =
     (let perm = argsort e (parsed_date df) in
      \<lparr>index = take_rows perm (index df),
       columns = map (\<lambda>(c, v). (c, take_rows perm v)) (columns df),
       parsed_date = take_rows perm (parsed_date df),
       parsed_month = take_rows perm (parsed_month df)\<rparr>)"

definition lookup_column :: "(string \<times> cell list) list \<Rightarrow> string \<Rightarrow> cell list" where
  "lookup_column cols c = (case map_of cols c of None \<Rightarrow> [] | Some v \<Rightarrow> v)"

text \<open>
  \<^verbatim>\<open>df[list_of_names]\<close>: the named columns in the order of the list, or the library's
  \<^verbatim>\<open>KeyError\<close> when a name is not a column. The added date columns are not selected.
\<close>

definition select_columns :: "work_frame \<Rightarrow> string list \<Rightarrow> exn + dataframe" where
  "select_columns df cs =
     (let missing = filter (\<lambda>c. c \<notin> set (column_names df)) cs in
      if missing \<noteq> [] then Inl (MissingColumns missing)
      else Inr \<lparr>index = index df, columns = map (\<lambda>c. (c, lookup_column (columns df) c)) cs\<rparr>)"

definition rename_columns :: "(string \<times> string) list \<Rightarrow> dataframe \<Rightarrow> dataframe" where
  "rename_columns m df =
     df\<lparr>columns := map (\<lambda>(c, v). (case map_of m c of None \<Rightarrow> c | Some c' \<Rightarrow> c', v)) (columns df)\<rparr>"

text \<open>
  What the library promises of the ordering of positions, whatever algorithm it runs:
  the result is a permutation of the positions, and the keys read along it ascend, the
  missing dates last. The program passes no \<^verbatim>\<open>kind\<close> to \<^verbatim>\<open>sort_values\<close>, so the
  library's default algorithm runs, which is not a stable one.
\<close>

definition date_le :: "timestamp option \<Rightarrow> timestamp option \<Rightarrow> bool" where
  "date_le a b =
     (case a of None \<Rightarrow> b = None
      | Some x \<Rightarrow> (case b of None \<Rightarrow> True | Some y \<Rightarrow> x \<le> y))"

definition argsort_ok :: "timestamp option list \<Rightarrow> nat list \<Rightarrow> bool" where
  "argsort_ok ks p = (sort p = [0..<length ks] \<and> sorted_wrt date_le (map (\<lambda>i. ks ! i) p))"

text \<open>
  A frame as \<^verbatim>\<open>pd.read_csv\<close> returns it: the row labels are the positions, and every
  column has one cell for each row.
\<close>

definition wf_frame :: "dataframe \<Rightarrow> bool" where
  "wf_frame df =
     (index df = [0..<length (index df)]
      \<and> list_all (\<lambda>cv. length (snd cv) = length (index df)) (columns df))"

text \<open>
  The rows of the input table with the given labels, as the output shows them: the
  columns of \<open>COLUMNS_TO_KEEP\<close> in order, under their new names, the cells of the row
  unchanged except the date cell, which is rewritten by \<open>reformat_date_string\<close>.
\<close>

definition renamed :: "string \<Rightarrow> string" where
  "renamed c = (case map_of COLUMNS_TO_RENAME c of None \<Rightarrow> c | Some c' \<Rightarrow> c')"

definition output_cell :: "string \<Rightarrow> cell \<Rightarrow> cell" where
  "output_cell c x = (if c = ''Campaign Data 16'' then Str (reformat_date_string x) else x)"

definition rows_at :: "dataframe \<Rightarrow> nat list \<Rightarrow> (string \<times> cell list) list" where
  "rows_at df labels =
     map (\<lambda>c. (renamed c, map (\<lambda>i. output_cell c (lookup_column (columns df) c ! i)) labels))
       COLUMNS_TO_KEEP"

section \<open>Table Filter/Projector\<close>

text \<open>
  \<^verbatim>\<open>process_csv\<close> (lines 53 to 83). \<open>process_csv_body\<close> is the body of the
  \<^verbatim>\<open>try\<close> statement, line by line; \<open>process_csv\<close> adds the handler of lines 82 and
  83, which wraps every exception of the body.
\<close>

definition process_csv_body :: "env \<Rightarrow> string \<Rightarrow> int \<Rightarrow> exn + dataframe" where
  "process_csv_body e csv_file target_month =
     (case read_csv e csv_file of
        Inl x \<Rightarrow> Inl x
      | Inr df \<Rightarrow>
          if ''Campaign Data 16'' \<notin> set (column_names df)
          then Inl (ValueError (''Column '' @ [CHR 0x27] @ ''Campaign Data 16'' @ [CHR 0x27]
                                  @ '' not found in CSV file''))
          else
            (case get_column df ''Campaign Data 16'' of
               Inl x \<Rightarrow> Inl x
             | Inr dates \<Rightarrow>
                 let pd = to_datetime e dates;
                     df1 = dataframe.extend df
                             \<lparr>parsed_date = pd, parsed_month = map (map_option ts_month) pd\<rparr>;
                     row_mask = map (\<lambda>pm. pm = Some target_month) (parsed_month df1);
                     filtered_df = select_rows row_mask df1;
                     sorted_df = sort_values e filtered_df
                 in
                   (case select_columns sorted_df COLUMNS_TO_KEEP of
                      Inl x \<Rightarrow> Inl x
                    | Inr kept \<Rightarrow>
                        let renamed = rename_columns COLUMNS_TO_RENAME kept in
                        (case get_column renamed ''Monthly Donation Start Date'' of
                           Inl x \<Rightarrow> Inl x
                         | Inr v \<Rightarrow>
                             Inr (set_column renamed ''Monthly Donation Start Date''
                                    (map (\<lambda>d. Str (reformat_date_string d)) v))))))"

definition process_csv :: "env \<Rightarrow> string \<Rightarrow> int \<Rightarrow> exn + dataframe" where
  "process_csv e csv_file target_month =
     (case process_csv_body e csv_file target_month of
        Inl x \<Rightarrow> Inl (ProcessingError x)
      | Inr out \<Rightarrow> Inr out)"

section \<open>Output Writer and the command line\<close>

text \<open>\<^verbatim>\<open>os.path.join\<close> of a directory and a name, on POSIX paths.\<close>

definition path_join :: "string \<Rightarrow> string \<Rightarrow> string" where
  "path_join dir name =
     (if name \<noteq> [] \<and> hd name = CHR ''/'' then name
      else if dir = [] \<or> last dir = CHR ''/'' then dir @ name
      else dir @ ''/'' @ name)"

text \<open>
  What a run does to the outside, in order: lines printed (\<open>PrintError x\<close> prints
  \<^verbatim>\<open>Error: \<close> and the text of \<open>x\<close>), prompts answered from standard input, the
  existence check of a path, the reading of a CSV file, the writing of one, and an
  exception that leaves the program.
\<close>

datatype event =
    Print string
  | PrintError exn
  | Input string
  | PathExists string
  | ReadCsv string
  | ToCsv string dataframe
  | Raise exn

text \<open>
  \<^verbatim>\<open>save_filtered_csv\<close> (lines 85 to 92): the result, and the writes it made. The
  look-up of line 87 comes first.
\<close>

definition save_filtered_csv ::
  "env \<Rightarrow> dataframe \<Rightarrow> int \<Rightarrow> string \<Rightarrow> (exn + string) \<times> event list" where
  "save_filtered_csv e filtered_df target_month output_dir =
     (case map_of MONTH_NAMES target_month of
        None \<Rightarrow> (Inl (MonthKeyError target_month), [])
      | Some month_name \<Rightarrow>
          let filename = month_name @ '' New EN Monthly Donors.csv'';
              filepath = path_join output_dir filename
          in (case to_csv e filepath filtered_df of
                Some x \<Rightarrow> (Inl x, [ToCsv filepath filtered_df])
              | None \<Rightarrow> (Inr filepath, [ToCsv filepath filtered_df])))"

text \<open>
  \<^verbatim>\<open>run_cli\<close> (lines 149 to 201), from the last step to the first: the guarded
  pipeline of lines 186 to 201, the range check of lines 182 to 184, the month of lines
  165 to 180, the existence check of lines 160 to 162, and the path of lines 155 to 158.
  \<open>argv\<close> is \<^verbatim>\<open>sys.argv\<close>; \<open>stdin\<close> holds the lines \<^verbatim>\<open>input()\<close> will read.
\<close>

definition cli_pipeline :: "env \<Rightarrow> string \<Rightarrow> int \<Rightarrow> event list" where
  "cli_pipeline e csv_file target_month =
     (case map_of MONTH_NAMES target_month of
        None \<Rightarrow> [Print (CHR 0x0A # ''Processing CSV file: '' @ csv_file),
                 PrintError (MonthKeyError target_month)]
      | Some month_name \<Rightarrow>
          [Print (CHR 0x0A # ''Processing CSV file: '' @ csv_file),
           Print (''Filtering for month: '' @ month_name),
           ReadCsv csv_file] @
          (case process_csv e csv_file target_month of
             Inl x \<Rightarrow> [PrintError x]
           | Inr filtered_df \<Rightarrow>
               (case save_filtered_csv e filtered_df target_month ''.'' of
                  (Inl x, evs) \<Rightarrow> evs @ [PrintError x]
                | (Inr output_path, evs) \<Rightarrow>
                    evs @
                    [Print (CHR 0x0A # ''Success!''),
                     Print (''Found '' @ nat_digits (length (index filtered_df))
                            @ '' records for '' @ month_name),
                     Print (''Output saved to: '' @ output_path)])))"

definition cli_check_month :: "env \<Rightarrow> string \<Rightarrow> int \<Rightarrow> event list" where
  "cli_check_month e csv_file target_month =
     (if target_month < 1 \<or> target_month > 12
      then [Print ''Error: Month must be between 1 and 12'']
      else cli_pipeline e csv_file target_month)"

definition cli_get_month :: "env \<Rightarrow> string \<Rightarrow> string list \<Rightarrow> string list \<Rightarrow> event list" where
  "cli_get_month e csv_file argv stdin =
     (if length argv > 2
      then (case py_int (argv ! 2) of
              None \<Rightarrow> [Print ''Error: Month must be a number between 1-12'']
            | Some target_month \<Rightarrow> cli_check_month e csv_file target_month)
      else
        Print (CHR 0x0A # ''Available months:'')
        # map (\<lambda>(i, month). Print (int_str i @ '': '' @ month)) MONTH_NAMES
        @ (case stdin of
             [] \<Rightarrow> [Input (CHR 0x0A # ''Enter month number (1-12): ''), Raise EOFError]
           | line # rest \<Rightarrow>
               Input (CHR 0x0A # ''Enter month number (1-12): '')
               # (case py_int line of
                    None \<Rightarrow> [Print ''Error: Please enter a valid number'']
                  | Some target_month \<Rightarrow> cli_check_month e csv_file target_month)))"

definition cli_with_file :: "env \<Rightarrow> string \<Rightarrow> string list \<Rightarrow> string list \<Rightarrow> event list" where
  "cli_with_file e csv_file argv stdin =
     PathExists csv_file
     # (if \<not> path_exists e csv_file
        then [Print (''Error: File '' @ [CHR 0x27] @ csv_file @ [CHR 0x27] @ '' not found'')]
        else cli_get_month e csv_file argv stdin)"

definition run_cli :: "env \<Rightarrow> string list \<Rightarrow> string list \<Rightarrow> event list" where
  "run_cli e argv stdin =
     [Print ''CLI Mode'', Print (replicate 40 (CHR ''=''))] @
     (if length argv > 1 then cli_with_file e (argv ! 1) argv stdin
      else (case stdin of
              [] \<Rightarrow> [Input ''Enter CSV file path: '', Raise EOFError]
            | line # rest \<Rightarrow>
                Input ''Enter CSV file path: '' # cli_with_file e (py_strip line) argv rest))"

definition is_file_op :: "event \<Rightarrow> bool" where
  "is_file_op ev =
     (case ev of PathExists p \<Rightarrow> True | ReadCsv p \<Rightarrow> True | ToCsv p d \<Rightarrow> True | _ \<Rightarrow> False)"

definition is_write :: "event \<Rightarrow> bool" where
  "is_write ev = (case ev of ToCsv p d \<Rightarrow> True | _ \<Rightarrow> False)"

section \<open>Instances of the library, for evaluation\<close>

text \<open>
  A date parser for the slash form only, used where a parser has to be run: day, month
  and year as whole numbers, the month from 1 to 12 and the day from 1 to 31, at
  midnight. It is not the library's parser: that one accepts other forms, rejects days
  a month does not have, and fixes a format for the whole column. The two agree on the
  date strings evaluated below.
\<close>

definition dayfirst_slash_parse :: "cell \<Rightarrow> timestamp option" where
  "dayfirst_slash_parse c =
     (case py_split (CHR ''/'') (py_strip (py_str c)) of
        [day, month, year] \<Rightarrow>
          (case (py_int day, py_int month, py_int year) of
             (Some d, Some m, Some y) \<Rightarrow>
               if 1 \<le> m \<and> m \<le> 12 \<and> 1 \<le> d \<and> d \<le> 31 then Some (y, m, d, 0) else None
           | _ \<Rightarrow> None)
      | _ \<Rightarrow> None)"

definition na_last :: "timestamp option \<Rightarrow> nat \<times> timestamp" where
  "na_last k = (case k of None \<Rightarrow> (1, (0, 0, 0, 0)) | Some t \<Rightarrow> (0, t))"

text \<open>
  An ordering of positions that meets \<open>argsort_ok\<close> and keeps equal keys in their
  order: insertion from the last position.
\<close>

definition stable_argsort :: "timestamp option list \<Rightarrow> nat list" where
  "stable_argsort ks = sort_key (\<lambda>i. na_last (ks ! i)) [0..<length ks]"
















text \<open>
  A table with the fifteen required columns and one more, whose date column is given,
  and an environment in which \<^verbatim>\<open>donors.csv\<close> is the only file and holds that table.
\<close>

definition sample_frame :: "cell list \<Rightarrow> dataframe" where
  "sample_frame dates =
     \<lparr>index = [0..<length dates],
      columns = map (\<lambda>c. (c, if c = ''Campaign Data 16'' then dates
                              else map (\<lambda>i. Num (int i)) [0..<length dates]))
                  (''Extra'' # COLUMNS_TO_KEEP)\<rparr>"

definition sample_env :: "dataframe \<Rightarrow> (timestamp option list \<Rightarrow> nat list) \<Rightarrow> env" where
  "sample_env df srt =
     \<lparr>read_csv = (\<lambda>p. if p = ''donors.csv'' then Inr df else Inl (LibraryError ''No such file'')),
      to_datetime = map dayfirst_slash_parse,
      argsort = srt,
      to_csv = (\<lambda>p d. None),
      path_exists = (\<lambda>p. p = ''donors.csv'')\<rparr>"

text \<open>
  Date columns and tables used in the evaluations: the three rows of the scenario in the
  specification, eighteen rows with the same date, a table that has the date column and
  no other, and a table without the date column.
\<close>

definition scenario_dates :: "cell list" where
  "scenario_dates = [Str ''5/3/2024'', Str ''20/3/2024'', Str ''1/4/2024'']"


definition date_only_frame :: dataframe where
  "date_only_frame = \<lparr>index = [0], columns = [(''Campaign Data 16'', [Str ''5/3/2024''])]\<rparr>"

definition no_date_frame :: dataframe where
  "no_date_frame = \<lparr>index = [0], columns = [(''Supporter ID'', [Num 7])]\<rparr>"

section \<open>Facts about the string built-ins\<close>

lemma py_split_nonempty: "py_split c s \<noteq> []"
  by (induction s) (auto split: list.splits)

lemma py_split_length: "length (py_split c s) = Suc (count_list s c)"
  by (induction s) (auto split: list.splits simp: py_split_nonempty)

lemma py_split_no_sep: "f \<in> set (py_split c s) \<Longrightarrow> c \<notin> set f"
  by (induction s arbitrary: f) (auto split: list.splits if_splits)

lemma py_split_single: "c \<notin> set a \<Longrightarrow> py_split c a = [a]"
  by (induction a) auto

lemma py_split_append: "c \<notin> set a \<Longrightarrow> py_split c (a @ c # b) = a # py_split c b"
  by (induction a) (auto split: list.splits)

lemma py_split_three:
  "c \<notin> set d \<Longrightarrow> c \<notin> set m \<Longrightarrow> c \<notin> set y \<Longrightarrow> py_split c (d @ c # m @ c # y) = [d, m, y]"
  by (simp add: py_split_append py_split_single)

lemma py_join_Cons_Cons: "py_join c ((x # f) # fs) = x # py_join c (f # fs)"
  by (cases fs) auto

lemma py_join_split: "py_join c (py_split c s) = s"
proof (induction s)
  case Nil
  then show ?case by simp
next
  case (Cons x xs)
  obtain f fs where sp: "py_split c xs = f # fs"
    using py_split_nonempty [of c xs] by (cases "py_split c xs") auto
  show ?case
  proof (cases "x = c")
    case True
    then show ?thesis using Cons.IH sp by simp
  next
    case False
    then show ?thesis using Cons.IH sp by (simp add: py_join_Cons_Cons)
  qed
qed

lemma py_split_inv3: "py_split c s = [d, m, y] \<Longrightarrow> s = d @ c # m @ c # y"
  using py_join_split [of c s] by simp

lemma dropWhile_sep:
  "\<not> P c \<Longrightarrow> dropWhile P (d @ c # r) = dropWhile P d @ c # r"
  by (induction d) auto

lemma strip_three:
  assumes "\<not> sp c"
  shows "strip_with sp (d @ c # m @ c # y) = lstrip_with sp d @ c # m @ c # rstrip_with sp y"
proof -
  have 1: "dropWhile sp (d @ c # m @ c # y) = dropWhile sp d @ c # m @ c # y"
    using assms by (rule dropWhile_sep)
  have "rev (dropWhile sp d @ c # m @ c # y) = rev y @ c # rev (dropWhile sp d @ c # m)"
    by simp
  then have 2: "dropWhile sp (rev (dropWhile sp d @ c # m @ c # y))
      = dropWhile sp (rev y) @ c # rev (dropWhile sp d @ c # m)"
    using assms dropWhile_sep [of sp c "rev y"] by simp
  show ?thesis
    unfolding strip_with_def lstrip_with_def rstrip_with_def 1 2 by simp
qed

lemma slash_not_space: "\<not> is_space (CHR ''/'')"
  by (simp add: is_space_def)

lemma count_list_dropWhile:
  "\<not> P c \<Longrightarrow> count_list (dropWhile P s) c = count_list s c"
  by (induction s) auto

lemma count_list_rev: "count_list (rev s) c = count_list s c"
  by (induction s) auto

lemma count_list_strip:
  "\<not> sp c \<Longrightarrow> count_list (strip_with sp s) c = count_list s c"
  by (simp add: strip_with_def lstrip_with_def rstrip_with_def count_list_dropWhile count_list_rev)

lemma three_fields_iff:
  "(\<exists>d m y. py_split c s = [d, m, y]) \<longleftrightarrow> count_list s c = 2"
proof
  assume "\<exists>d m y. py_split c s = [d, m, y]"
  then have "length (py_split c s) = 3" by auto
  then show "count_list s c = 2" by (simp add: py_split_length)
next
  assume "count_list s c = 2"
  then have "length (py_split c s) = 3" by (simp add: py_split_length)
  then show "\<exists>d m y. py_split c s = [d, m, y]"
    by (auto simp: length_Suc_conv numeral_3_eq_3)
qed

lemma reformat_empty_iff:
  "reformat_date_string (Str s) = '''' \<longleftrightarrow> count_list s (CHR ''/'') \<noteq> 2"
proof (cases "count_list (py_strip s) (CHR ''/'') = 2")
  case True
  then obtain d m y where "py_split (CHR ''/'') (py_strip s) = [d, m, y]"
    using three_fields_iff by blast
  moreover have "count_list s (CHR ''/'') = 2"
    using True by (simp add: py_strip_def count_list_strip slash_not_space)
  ultimately show ?thesis by (simp add: reformat_date_string_def)
next
  case False
  then have "\<not> (\<exists>d m y. py_split (CHR ''/'') (py_strip s) = [d, m, y])"
    using three_fields_iff by blast
  then have "reformat_date_string (Str s) = ''''"
    by (auto simp: reformat_date_string_def split: list.splits)
  moreover have "count_list s (CHR ''/'') \<noteq> 2"
    using False by (simp add: py_strip_def count_list_strip slash_not_space)
  ultimately show ?thesis by simp
qed

lemma reformat_fields:
  assumes "CHR ''/'' \<notin> set d" "CHR ''/'' \<notin> set m" "CHR ''/'' \<notin> set y"
  shows "reformat_date_string (Str (d @ ''/'' @ m @ ''/'' @ y))
         = zfill 2 m @ ''/'' @ zfill 2 (lstrip_with is_space d) @ ''/'' @ rstrip_with is_space y"
proof -
  have s: "py_strip (d @ CHR ''/'' # m @ CHR ''/'' # y)
        = lstrip_with is_space d @ CHR ''/'' # m @ CHR ''/'' # rstrip_with is_space y"
    using strip_three [of is_space "CHR ''/''" d m y] slash_not_space by (simp add: py_strip_def)
  have "CHR ''/'' \<notin> set (lstrip_with is_space d)"
    using assms(1) set_dropWhileD by (fastforce simp: lstrip_with_def)
  moreover have "CHR ''/'' \<notin> set (rstrip_with is_space y)"
    using assms(3) set_dropWhileD by (fastforce simp: rstrip_with_def)
  ultimately show ?thesis
    using assms(2) by (simp add: reformat_date_string_def s py_split_three)
qed


lemma parse_none_iff_fields:
  "count_list s (CHR ''/'') \<noteq> 2 \<Longrightarrow> parse_date_column (Str s) = None"
proof -
  assume "count_list s (CHR ''/'') \<noteq> 2"
  then have "count_list (py_strip s) (CHR ''/'') \<noteq> 2"
    by (simp add: py_strip_def count_list_strip slash_not_space)
  then have "\<not> (\<exists>d m y. py_split (CHR ''/'') (py_strip s) = [d, m, y])"
    using three_fields_iff by blast
  then show ?thesis
    by (auto simp: parse_date_column_def Let_def split: list.splits)
qed

lemma parse_fields:
  assumes "CHR ''/'' \<notin> set d" "CHR ''/'' \<notin> set m" "CHR ''/'' \<notin> set y"
  shows "parse_date_column (Str (d @ ''/'' @ m @ ''/'' @ y)) = py_int m"
proof -
  have s: "py_strip (d @ CHR ''/'' # m @ CHR ''/'' # y)
        = lstrip_with is_space d @ CHR ''/'' # m @ CHR ''/'' # rstrip_with is_space y"
    using strip_three [of is_space "CHR ''/''" d m y] slash_not_space by (simp add: py_strip_def)
  have "CHR ''/'' \<notin> set (lstrip_with is_space d)"
    using assms(1) set_dropWhileD by (fastforce simp: lstrip_with_def)
  moreover have "CHR ''/'' \<notin> set (rstrip_with is_space y)"
    using assms(3) set_dropWhileD by (fastforce simp: rstrip_with_def)
  moreover have "lstrip_with is_space d @ CHR ''/'' # m @ CHR ''/'' # rstrip_with is_space y \<noteq> ''nan''"
  proof
    assume "lstrip_with is_space d @ CHR ''/'' # m @ CHR ''/'' # rstrip_with is_space y = ''nan''"
    then have "CHR ''/'' \<in> set ''nan''" by (metis in_set_conv_decomp)
    then show False by simp
  qed
  ultimately show ?thesis
    using assms(2) by (simp add: parse_date_column_def s py_split_three)
qed

lemma valid_body_last_digit: "valid_body b \<Longrightarrow> is_digit (last b)"
  by (induction b rule: valid_body.induct) (auto split: if_splits)

lemma valid_body_hd_digit: "valid_body b \<Longrightarrow> is_digit (hd b)"
  by (induction b rule: valid_body.induct) auto

lemma valid_body_nonempty: "valid_body b \<Longrightarrow> b \<noteq> []"
  by auto

lemma digit_not_space: "is_digit c \<Longrightarrow> \<not> is_space c"
  by (auto simp: is_digit_def is_space_def)

lemma int_space_space: "is_int_space c \<Longrightarrow> is_space c"
  by (auto simp: is_int_space_def is_space_def)

lemma sign_not_space: "\<not> is_space (CHR ''+'')" "\<not> is_space (CHR ''-'')"
  by (simp_all add: is_space_def)

lemma py_int_core:
  assumes "py_int s = Some v"
  shows "strip_with is_int_space s \<noteq> [] \<and> \<not> is_space (hd (strip_with is_int_space s))
         \<and> \<not> is_space (last (strip_with is_int_space s))"
proof -
  let ?t = "strip_with is_int_space s"
  from assms obtain c r where t: "?t = c # r"
    by (cases ?t) (auto simp: py_int_def)
  have "\<not> is_space c \<and> \<not> is_space (last (c # r))"
  proof (cases "c = CHR ''-'' \<or> c = CHR ''+''")
    case True
    then have vb: "valid_body r" using assms t by (auto simp: py_int_def split: if_splits)
    then have "r \<noteq> []" by auto
    then have "last (c # r) = last r" by simp
    then show ?thesis using True vb valid_body_last_digit digit_not_space sign_not_space by auto
  next
    case False
    then have vb: "valid_body (c # r)" using assms t by (auto simp: py_int_def split: if_splits)
    then show ?thesis
      using valid_body_last_digit [OF vb] valid_body_hd_digit [OF vb] digit_not_space by auto
  qed
  then show ?thesis using t by simp
qed

lemma dropWhile_core:
  assumes "\<forall>x\<in>set a. sp x" "core \<noteq> []" "\<not> sp (hd core)"
  shows "dropWhile sp (a @ core @ b) = core @ b"
proof -
  have "dropWhile sp (a @ core @ b) = dropWhile sp (core @ b)"
    using assms(1) by (simp add: dropWhile_append2)
  also have "\<dots> = core @ b"
    using assms(2,3) by (cases core) auto
  finally show ?thesis .
qed

lemma strip_unique:
  assumes "\<forall>x\<in>set a. sp x" "\<forall>x\<in>set b. sp x" "core \<noteq> []"
    "\<not> sp (hd core)" "\<not> sp (last core)"
  shows "strip_with sp (a @ core @ b) = core"
proof -
  have 1: "dropWhile sp (a @ core @ b) = core @ b"
    using assms(1,3,4) by (rule dropWhile_core)
  have "dropWhile sp (rev b @ rev core @ []) = rev core @ []"
    using assms by (intro dropWhile_core) (auto simp: hd_rev)
  then have 2: "dropWhile sp (rev b @ rev core) = rev core" by simp
  show ?thesis
    by (simp add: strip_with_def lstrip_with_def rstrip_with_def 1 2)
qed

lemma strip_decomp:
  "\<exists>a b. s = a @ strip_with sp s @ b \<and> (\<forall>x\<in>set a. sp x) \<and> (\<forall>x\<in>set b. sp x)"
proof -
  let ?a = "takeWhile sp s" and ?u = "dropWhile sp s"
  let ?b = "rev (takeWhile sp (rev ?u))"
  have "rev (takeWhile sp (rev ?u) @ dropWhile sp (rev ?u)) = ?u"
    by (simp only: takeWhile_dropWhile_id rev_rev_ident)
  then have "rev (dropWhile sp (rev ?u)) @ ?b = ?u"
    by (simp only: rev_append)
  then have "?u = strip_with sp s @ ?b"
    by (simp only: strip_with_def lstrip_with_def rstrip_with_def)
  then have "s = ?a @ strip_with sp s @ ?b"
    by (metis takeWhile_dropWhile_id)
  moreover have "\<forall>x\<in>set ?a. sp x" by (auto dest: set_takeWhileD)
  moreover have "\<forall>x\<in>set ?b. sp x" by (auto dest: set_takeWhileD)
  ultimately show ?thesis by blast
qed

lemma strip_inner:
  assumes sub: "\<And>x. P x \<Longrightarrow> Q x"
    and ne: "strip_with P s \<noteq> []"
    and h: "\<not> Q (hd (strip_with P s))" and l: "\<not> Q (last (strip_with P s))"
  shows "strip_with P (lstrip_with Q s) = strip_with P s"
    and "strip_with P (rstrip_with Q s) = strip_with P s"
proof -
  let ?core = "strip_with P s"
  obtain a b where s: "s = a @ ?core @ b" and a: "\<forall>x\<in>set a. P x" and b: "\<forall>x\<in>set b. P x"
    using strip_decomp [of s P] by blast
  have aQ: "\<forall>x\<in>set a. Q x" and bQ: "\<forall>x\<in>set b. Q x" using a b sub by auto
  have nP: "\<not> P (hd ?core)" "\<not> P (last ?core)" using h l sub by auto
  have "dropWhile Q (a @ ?core @ b) = ?core @ b"
    using aQ ne h by (rule dropWhile_core)
  then have "lstrip_with Q s = [] @ ?core @ b" using s by (simp add: lstrip_with_def)
  moreover have "strip_with P ([] @ ?core @ b) = ?core"
    using b ne nP by (intro strip_unique) auto
  ultimately show "strip_with P (lstrip_with Q s) = ?core" by simp
  have "dropWhile Q (rev b @ rev ?core @ rev a) = rev ?core @ rev a"
    using bQ ne l by (intro dropWhile_core) (auto simp: hd_rev)
  moreover have "rev s = rev b @ rev ?core @ rev a" by (subst s) simp
  ultimately have "rstrip_with Q s = a @ ?core @ []" by (simp add: rstrip_with_def)
  moreover have "strip_with P (a @ ?core @ []) = ?core"
    using a ne nP by (intro strip_unique) auto
  ultimately show "strip_with P (rstrip_with Q s) = ?core" by simp
qed

lemma py_int_strip:
  assumes "py_int d = Some v"
  shows "py_int (lstrip_with is_space d) = Some v" and "py_int (rstrip_with is_space d) = Some v"
proof -
  from py_int_core [OF assms] have ne: "strip_with is_int_space d \<noteq> []"
    and h: "\<not> is_space (hd (strip_with is_int_space d))"
    and l: "\<not> is_space (last (strip_with is_int_space d))" by auto
  have 1: "strip_with is_int_space (lstrip_with is_space d) = strip_with is_int_space d"
    using int_space_space ne h l by (rule strip_inner(1))
  have 2: "strip_with is_int_space (rstrip_with is_space d) = strip_with is_int_space d"
    using int_space_space ne h l by (rule strip_inner(2))
  show "py_int (lstrip_with is_space d) = Some v" using assms by (simp add: py_int_def 1)
  show "py_int (rstrip_with is_space d) = Some v" using assms by (simp add: py_int_def 2)
qed

lemma py_int_zfill:
  assumes "py_int x = Some v"
  shows "py_int (zfill 2 x) = Some v"
proof (cases "2 \<le> length x")
  case True
  then show ?thesis using assms by (simp add: zfill_def)
next
  case False
  then have "x = [] \<or> (\<exists>c. x = [c])"
    by (cases x) (auto simp: Suc_le_eq)
  moreover have "x \<noteq> []" using assms by (auto simp: py_int_def strip_with_def lstrip_with_def rstrip_with_def)
  ultimately obtain c where x: "x = [c]" by auto
  have c: "is_digit c"
    using assms unfolding x py_int_def strip_with_def lstrip_with_def rstrip_with_def
    by (auto split: if_splits)
  then have ns: "\<not> is_int_space c" "c \<noteq> CHR ''+''" "c \<noteq> CHR ''-''" "c \<noteq> CHR ''_''"
    by (auto simp: is_digit_def is_int_space_def)
  have v: "v = digit_val c"
    using assms ns c unfolding x py_int_def strip_with_def lstrip_with_def rstrip_with_def
    by (simp add: body_value_def)
  have z: "zfill 2 x = [CHR ''0'', c]" using ns by (simp add: zfill_def x)
  have "\<not> is_int_space (CHR ''0'')" "is_digit (CHR ''0'')" "digit_val (CHR ''0'') = 0"
    by (simp_all add: is_int_space_def is_digit_def digit_val_def)
  then show ?thesis
    unfolding z py_int_def strip_with_def lstrip_with_def rstrip_with_def
    using ns c v by (simp add: body_value_def)
qed

lemma zfill_no_slash: "CHR ''/'' \<notin> set x \<Longrightarrow> CHR ''/'' \<notin> set (zfill w x)"
  by (auto simp: zfill_def split: list.splits)

lemma roundtrip:
  assumes sp: "py_split (CHR ''/'') s = [d, m, y]"
    and d: "py_int d = Some dv" and m: "py_int m = Some mv" and y: "py_int y = Some yv"
  shows "\<exists>m' d' y'. py_split (CHR ''/'') (reformat_date_string (Str s)) = [m', d', y']
            \<and> py_int m' = Some mv \<and> py_int d' = Some dv \<and> py_int y' = Some yv"
proof -
  have s: "s = d @ ''/'' @ m @ ''/'' @ y" using py_split_inv3 [OF sp] by simp
  have ns: "CHR ''/'' \<notin> set d" "CHR ''/'' \<notin> set m" "CHR ''/'' \<notin> set y"
    using py_split_no_sep [of _ "CHR ''/''" s] sp by auto
  let ?m = "zfill 2 m" and ?d = "zfill 2 (lstrip_with is_space d)" and ?y = "rstrip_with is_space y"
  have r: "reformat_date_string (Str s) = ?m @ CHR ''/'' # ?d @ CHR ''/'' # ?y"
    using reformat_fields [OF ns] s by simp
  have "CHR ''/'' \<notin> set (lstrip_with is_space d)"
    using ns(1) set_dropWhileD by (fastforce simp: lstrip_with_def)
  then have nd: "CHR ''/'' \<notin> set ?d" by (rule zfill_no_slash)
  have nm: "CHR ''/'' \<notin> set ?m" using ns(2) by (rule zfill_no_slash)
  have ny: "CHR ''/'' \<notin> set ?y"
    using ns(3) set_dropWhileD by (fastforce simp: rstrip_with_def)
  have "py_split (CHR ''/'') (reformat_date_string (Str s)) = [?m, ?d, ?y]"
    unfolding r using nm nd ny by (rule py_split_three)
  moreover have "py_int ?m = Some mv" using m by (rule py_int_zfill)
  moreover have "py_int ?d = Some dv" using py_int_strip(1) [OF d] by (rule py_int_zfill)
  moreover have "py_int ?y = Some yv" using y by (rule py_int_strip(2))
  ultimately show ?thesis by blast
qed

section \<open>Claims about the Date Normalizer\<close>

text \<open>
  C3, as amended. \<open>reformat_date_string\<close> is total: no input makes it raise. It returns
  the empty string exactly when the input does not have two slashes, that is, three
  fields. On three fields it returns month, day and year in that order, month and day
  padded by \<open>zfill\<close> to two characters, the white space around the whole string removed;
  the fields are not required to be numeric.
\<close>

theorem reformat_date_string_three_fields:
  "(reformat_date_string (Str s) = '''' \<longleftrightarrow> count_list s (CHR ''/'') \<noteq> 2) \<and>
   (CHR ''/'' \<notin> set d \<and> CHR ''/'' \<notin> set m \<and> CHR ''/'' \<notin> set y \<longrightarrow>
      reformat_date_string (Str (d @ ''/'' @ m @ ''/'' @ y))
      = zfill 2 m @ ''/'' @ zfill 2 (lstrip_with is_space d) @ ''/'' @ rstrip_with is_space y)"
  using reformat_empty_iff [of s] reformat_fields [of d m y] by blast

theorem reformat_date_string_three_fields_witness:
  "count_list ''5-3-2024'' (CHR ''/'') \<noteq> 2 \<and> reformat_date_string (Str ''5-3-2024'') = '''' \<and>
   CHR ''/'' \<notin> set ''5'' \<and> CHR ''/'' \<notin> set ''3'' \<and> CHR ''/'' \<notin> set ''2024 '' \<and>
   reformat_date_string (Str (''5'' @ ''/'' @ ''3'' @ ''/'' @ ''2024 '')) = ''03/05/2024''"
  using reformat_date_string_three_fields [of "''5-3-2024''" "''5''" "''3''" "''2024 ''"]
  by (simp add: zfill_def lstrip_with_def rstrip_with_def is_space_def)

text \<open>
  C3 as stated fails: a string of three fields none of which is numeric is rearranged
  and padded, not answered with the empty string.
\<close>

theorem reformat_date_string_nonnumeric_counterexample:
  "py_int ''a'' = None \<and> py_int ''b'' = None \<and> py_int ''c'' = None \<and>
   reformat_date_string (Str ''a/b/c'') = ''0b/0a/c''"
  by (simp add: py_int_def strip_with_def lstrip_with_def rstrip_with_def is_int_space_def
      is_digit_def reformat_date_string_def py_strip_def is_space_def zfill_def)

text \<open>
  C4, as amended. \<open>parse_date_column\<close> is total: no input makes it raise. It returns
  \<open>None\<close> when the input does not have exactly three fields, which covers the empty
  string and the marker \<^verbatim>\<open>nan\<close>; on three fields it returns what \<^verbatim>\<open>int\<close> makes of
  the month field, so \<open>None\<close> exactly when that field is not numeric. The day and the
  year are not looked at.
\<close>

theorem parse_date_column_month_field:
  "(count_list s (CHR ''/'') \<noteq> 2 \<longrightarrow> parse_date_column (Str s) = None) \<and>
   (CHR ''/'' \<notin> set d \<and> CHR ''/'' \<notin> set m \<and> CHR ''/'' \<notin> set y \<longrightarrow>
      parse_date_column (Str (d @ ''/'' @ m @ ''/'' @ y)) = py_int m) \<and>
   parse_date_column (Str '''') = None \<and> parse_date_column (Str ''nan'') = None"
proof -
  have "parse_date_column (Str '''') = None"
    using parse_none_iff_fields [of "''''"] by simp
  moreover have "parse_date_column (Str ''nan'') = None"
    using parse_none_iff_fields [of "''nan''"] by simp
  ultimately show ?thesis
    using parse_none_iff_fields [of s] parse_fields [of d m y] by blast
qed

theorem parse_date_column_month_field_witness:
  "count_list ''2024-03-05'' (CHR ''/'') \<noteq> 2 \<and> parse_date_column (Str ''2024-03-05'') = None \<and>
   CHR ''/'' \<notin> set ''5'' \<and> CHR ''/'' \<notin> set ''3'' \<and> CHR ''/'' \<notin> set ''2024'' \<and>
   parse_date_column (Str (''5'' @ ''/'' @ ''3'' @ ''/'' @ ''2024'')) = Some 3 \<and>
   parse_date_column (Str (''5'' @ ''/'' @ ''March'' @ ''/'' @ ''2024'')) = None"
  using parse_date_column_month_field [of "''2024-03-05''" "''5''" "''3''" "''2024''"]
    parse_date_column_month_field [of "''2024-03-05''" "''5''" "''March''" "''2024''"]
  by (simp add: py_int_def strip_with_def lstrip_with_def rstrip_with_def is_int_space_def
      is_digit_def body_value_def digit_val_def)

text \<open>
  C4 as stated fails: with a day and a year that are not numeric, the month is still
  returned.
\<close>

theorem parse_date_column_nonnumeric_counterexample:
  "py_int ''x'' = None \<and> py_int ''y'' = None \<and> parse_date_column (Str ''x/3/y'') = Some 3"
  by (simp add: py_int_def strip_with_def lstrip_with_def rstrip_with_def is_int_space_def
      is_digit_def body_value_def digit_val_def parse_date_column_def py_strip_def is_space_def)

text \<open>
  C7. For a string whose three slash-separated fields are numeric, the output of
  \<open>reformat_date_string\<close> splits on the slash into three fields again, and read as
  month, day and year they have the numbers of the input's month, day and year.
\<close>

theorem reformat_date_string_roundtrip:
  assumes "py_split (CHR ''/'') s = [d, m, y]"
    and "py_int d = Some dv" and "py_int m = Some mv" and "py_int y = Some yv"
  shows "\<exists>m' d' y'. py_split (CHR ''/'') (reformat_date_string (Str s)) = [m', d', y']
            \<and> py_int m' = Some mv \<and> py_int d' = Some dv \<and> py_int y' = Some yv"
  using assms by (rule roundtrip)

theorem reformat_date_string_roundtrip_witness:
  "py_split (CHR ''/'') ''5/3/2024'' = [''5'', ''3'', ''2024''] \<and>
   py_int ''5'' = Some 5 \<and> py_int ''3'' = Some 3 \<and> py_int ''2024'' = Some 2024 \<and>
   (\<exists>m' d' y'. py_split (CHR ''/'') (reformat_date_string (Str ''5/3/2024'')) = [m', d', y']
            \<and> py_int m' = Some 3 \<and> py_int d' = Some 5 \<and> py_int y' = Some 2024)"
proof -
  have 1: "py_split (CHR ''/'') ''5/3/2024'' = [''5'', ''3'', ''2024'']" by simp
  have 2: "py_int ''5'' = Some 5" "py_int ''3'' = Some 3" "py_int ''2024'' = Some 2024"
    by (simp_all add: py_int_def strip_with_def lstrip_with_def rstrip_with_def is_int_space_def
        is_digit_def body_value_def digit_val_def)
  show ?thesis
    using 1 2 reformat_date_string_roundtrip [OF 1 2] by blast
qed

section \<open>Facts about frames and the pipeline\<close>

lemma column_names_select_rows [simp]: "column_names (select_rows mk w) = column_names w"
  by (simp add: column_names_def select_rows_def case_prod_unfold comp_def)

lemma column_names_sort_values [simp]: "column_names (sort_values e w) = column_names w"
  by (simp add: column_names_def sort_values_def Let_def case_prod_unfold comp_def)

lemma select_columns_Inr:
  "select_columns w cs = Inr k \<Longrightarrow> index k = index w \<and> column_names k = cs"
  by (auto simp: select_columns_def Let_def column_names_def comp_def split: if_splits)

lemma select_columns_ok:
  "set cs \<subseteq> set (column_names w) \<Longrightarrow>
   select_columns w cs = Inr \<lparr>index = index w, columns = map (\<lambda>c. (c, lookup_column (columns w) c)) cs\<rparr>"
  by (auto simp: select_columns_def Let_def filter_empty_conv)


lemma column_names_rename:
  "column_names (rename_columns m k) = map (\<lambda>c. case map_of m c of None \<Rightarrow> c | Some c' \<Rightarrow> c') (column_names k)"
  by (simp add: column_names_def rename_columns_def case_prod_unfold comp_def)

lemma column_names_set_column:
  "c \<in> set (column_names k) \<Longrightarrow> column_names (set_column k c v) = column_names k"
  by (induction "columns k") (auto simp: column_names_def set_column_def case_prod_unfold comp_def intro!: map_idI)

lemma index_set_column [simp]: "index (set_column k c v) = index k"
  by (simp add: set_column_def)

lemma index_rename [simp]: "index (rename_columns m k) = index k"
  by (simp add: rename_columns_def)

lemma renamed_keep:
  "map (\<lambda>c. case map_of COLUMNS_TO_RENAME c of None \<Rightarrow> c | Some c' \<Rightarrow> c') COLUMNS_TO_KEEP =
     [''Supporter ID'', ''Supporter Email'', ''Campaign ID'', ''Organization or Company'',
      ''First Name'', ''Last Name'', ''Partner Name'', ''Address 1'', ''City'', ''State'',
      ''ZIP Code'', ''Raisers Edge Constituent ID'', ''Assigned Region'', ''Donation Amount'',
      ''Monthly Donation Start Date'']"
  by (simp add: COLUMNS_TO_RENAME_def COLUMNS_TO_KEEP_def)

lemma get_column_Inr: "get_column k c = Inr v \<Longrightarrow> c \<in> set (column_names k)"
  by (auto simp: get_column_def column_names_def split: option.splits dest: map_of_SomeD intro: rev_image_eqI)

lemma process_csv_columns:
  assumes "process_csv e f m = Inr out"
  shows "column_names out =
     [''Supporter ID'', ''Supporter Email'', ''Campaign ID'', ''Organization or Company'',
      ''First Name'', ''Last Name'', ''Partner Name'', ''Address 1'', ''City'', ''State'',
      ''ZIP Code'', ''Raisers Edge Constituent ID'', ''Assigned Region'', ''Donation Amount'',
      ''Monthly Donation Start Date'']"
proof -
  from assms obtain w kept v where
    k: "select_columns w COLUMNS_TO_KEEP = Inr kept" and
    g: "get_column (rename_columns COLUMNS_TO_RENAME kept) ''Monthly Donation Start Date'' = Inr v" and
    o: "out = set_column (rename_columns COLUMNS_TO_RENAME kept) ''Monthly Donation Start Date''
                    (map (\<lambda>d. Str (reformat_date_string d)) v)"
    by (auto simp: process_csv_def process_csv_body_def Let_def split: sum.splits if_splits)
  have "column_names (rename_columns COLUMNS_TO_RENAME kept) =
     [''Supporter ID'', ''Supporter Email'', ''Campaign ID'', ''Organization or Company'',
      ''First Name'', ''Last Name'', ''Partner Name'', ''Address 1'', ''City'', ''State'',
      ''ZIP Code'', ''Raisers Edge Constituent ID'', ''Assigned Region'', ''Donation Amount'',
      ''Monthly Donation Start Date'']"
    using select_columns_Inr [OF k] by (simp add: column_names_rename renamed_keep)
  then show ?thesis
    unfolding o using column_names_set_column [OF get_column_Inr [OF g]] by simp
qed


lemma keep_rows_nth:
  "length mk = length xs \<Longrightarrow> keep_rows mk xs = map (\<lambda>i. xs ! i) (filter (\<lambda>i. mk ! i) [0..<length xs])"
proof (induction xs arbitrary: mk rule: rev_induct)
  case Nil
  then show ?case by (simp add: keep_rows_def)
next
  case (snoc x xs)
  then obtain mk' b where mk: "mk = mk' @ [b]" and l: "length mk' = length xs"
    by (cases mk rule: rev_cases) auto
  have ih: "keep_rows mk' xs = map (\<lambda>i. xs ! i) (filter (\<lambda>i. mk' ! i) [0..<length xs])"
    using snoc.IH l by simp
  have f: "filter (\<lambda>i. (mk' @ [b]) ! i) [0..<length xs] = filter (\<lambda>i. mk' ! i) [0..<length xs]"
    using l by (intro filter_cong) (auto simp: nth_append)
  have m: "map (\<lambda>i. (xs @ [x]) ! i) (filter (\<lambda>i. mk' ! i) [0..<length xs])
         = map (\<lambda>i. xs ! i) (filter (\<lambda>i. mk' ! i) [0..<length xs])"
    by (intro map_cong) (auto simp: nth_append)
  have k: "keep_rows mk (xs @ [x]) = keep_rows mk' xs @ (if b then [x] else [])"
    using l by (simp add: keep_rows_def mk)
  have "filter (\<lambda>i. mk ! i) [0..<length (xs @ [x])]
        = filter (\<lambda>i. mk' ! i) [0..<length xs] @ (if b then [length xs] else [])"
  proof -
    have nb: "(mk' @ [b]) ! length xs = b" using l by (metis nth_append_length)
    show ?thesis unfolding mk using f nb by simp
  qed
  then have "map (\<lambda>i. (xs @ [x]) ! i) (filter (\<lambda>i. mk ! i) [0..<length (xs @ [x])])
        = map (\<lambda>i. xs ! i) (filter (\<lambda>i. mk' ! i) [0..<length xs]) @ (if b then [x] else [])"
    using m by simp
  then show ?case using k ih by simp
qed

lemma keep_rows_upt:
  "length mk = n \<Longrightarrow> keep_rows mk [0..<n] = filter (\<lambda>i. mk ! i) [0..<n]"
proof -
  assume l: "length mk = n"
  have "map (\<lambda>i. [0..<n] ! i) (filter (\<lambda>i. mk ! i) [0..<n]) = filter (\<lambda>i. mk ! i) [0..<n]"
    by (rule map_idI) simp
  then show ?thesis using keep_rows_nth [of mk "[0..<n]"] l by simp
qed

lemma perm_positions:
  assumes "sort p = [0..<k]"
  shows "mset p = mset [0..<k]" and "set p = {0..<k}" and "distinct p" and "length p = k"
proof -
  show m: "mset p = mset [0..<k]" using assms by (metis mset_sort)
  show "set p = {0..<k}" using m by (metis set_mset_mset set_upt)
  show "distinct p" using m by (metis distinct_upt mset_eq_imp_distinct_iff)
  show "length p = k" using m by (metis size_mset length_upt diff_zero)
qed

lemma take_rows_mset:
  assumes "sort p = [0..<length xs]"
  shows "mset (take_rows p xs) = mset xs"
proof -
  have "mset (map (\<lambda>i. xs ! i) p) = image_mset (\<lambda>i. xs ! i) (mset p)" by simp
  also have "\<dots> = image_mset (\<lambda>i. xs ! i) (mset [0..<length xs])"
    using perm_positions(1) [OF assms] by simp
  also have "\<dots> = mset (map (\<lambda>i. xs ! i) [0..<length xs])" by simp
  also have "\<dots> = mset xs" by (simp add: map_nth)
  finally show ?thesis by (simp add: take_rows_def)
qed

lemma length_keep_rows:
  "length mk = length xs \<Longrightarrow> length ys = length xs \<Longrightarrow> length (keep_rows mk xs) = length (keep_rows mk ys)"
  by (simp add: keep_rows_nth)


lemma get_set_column:
  "c \<in> set (column_names k) \<Longrightarrow> get_column (set_column k c v) c = Inr v"
proof -
  assume a: "c \<in> set (column_names k)"
  have "c \<in> fst ` set cols \<Longrightarrow>
        map_of (map (\<lambda>(c', v'). if c' = c then (c', v) else (c', v')) cols) c = Some v" for cols
    by (induction cols) (auto split: prod.splits)
  then show ?thesis using a by (simp add: get_column_def set_column_def column_names_def)
qed

lemma column_names_extend [simp]:
  "column_names (dataframe.extend df more) = column_names df"
  by (simp add: column_names_def dataframe.defs)

lemma map_of_map_values:
  "map_of (map (\<lambda>(c, v). (c, g v)) xs) k = map_option g (map_of xs k)"
  by (induction xs) auto

lemma renamed_date_column:
  "get_column (rename_columns COLUMNS_TO_RENAME
       \<lparr>index = ix, columns = map (\<lambda>c. (c, look c)) COLUMNS_TO_KEEP\<rparr>)
     ''Monthly Donation Start Date'' = Inr (look ''Campaign Data 16'')"
  by (simp add: get_column_def rename_columns_def COLUMNS_TO_RENAME_def COLUMNS_TO_KEEP_def)

lemma process_csv_result:
  assumes rd: "read_csv e f = Inr df"
    and col: "get_column df ''Campaign Data 16'' = Inr dates"
    and keep: "set COLUMNS_TO_KEEP \<subseteq> set (column_names df)"
    and mk: "mk = map (\<lambda>d. map_option ts_month d = Some m) (to_datetime e dates)"
    and perm: "perm = argsort e (keep_rows mk (to_datetime e dates))"
  shows "\<exists>out. process_csv e f m = Inr out
           \<and> index out = take_rows perm (keep_rows mk (index df))
           \<and> get_column out ''Monthly Donation Start Date''
               = Inr (map (\<lambda>d. Str (reformat_date_string d)) (take_rows perm (keep_rows mk dates)))"
proof -
  let ?pd = "to_datetime e dates"
  let ?df1 = "dataframe.extend df \<lparr>parsed_date = ?pd, parsed_month = map (map_option ts_month) ?pd\<rparr>"
  let ?sorted = "sort_values e (select_rows mk ?df1)"
  let ?look = "lookup_column (columns ?sorted)"
  let ?kept = "\<lparr>index = index ?sorted, columns = map (\<lambda>c. (c, ?look c)) COLUMNS_TO_KEEP\<rparr>"
  let ?renamed = "rename_columns COLUMNS_TO_RENAME ?kept"
  let ?name = "''Monthly Donation Start Date''"
  let ?out = "set_column ?renamed ?name (map (\<lambda>d. Str (reformat_date_string d)) (?look ''Campaign Data 16''))"
  have present: "''Campaign Data 16'' \<in> set (column_names df)"
    using col by (rule get_column_Inr)
  have mk': "map (\<lambda>pm. pm = Some m) (parsed_month ?df1) = mk"
    by (simp add: mk dataframe.defs comp_def)
  have col1: "get_column ?df1 ''Campaign Data 16'' = Inr dates"
    using col by (simp add: get_column_def dataframe.defs)
  have cn: "column_names ?df1 = column_names df"
    by (simp add: column_names_def dataframe.defs)
  have sel: "select_columns ?sorted COLUMNS_TO_KEEP = Inr ?kept"
    using keep by (intro select_columns_ok) (simp add: cn)
  have g: "get_column ?renamed ?name = Inr (?look ''Campaign Data 16'')"
    by (rule renamed_date_column)
  have body: "process_csv_body e f m = Inr ?out"
    unfolding process_csv_body_def
    using rd present col sel g by (simp add: Let_def mk')
  have pdate: "parsed_date (select_rows mk ?df1) = keep_rows mk ?pd"
    by (simp add: select_rows_def dataframe.defs)
  have ix: "index ?out = take_rows perm (keep_rows mk (index df))"
    by (simp add: sort_values_def Let_def pdate perm select_rows_def dataframe.defs)
  have mo: "map_of (columns df) ''Campaign Data 16'' = Some dates"
    using col by (auto simp: get_column_def split: option.splits)
  have "columns ?sorted = map (\<lambda>(c, v). (c, take_rows perm (keep_rows mk v))) (columns df)"
    by (simp add: sort_values_def Let_def pdate perm select_rows_def dataframe.defs
        case_prod_unfold comp_def)
  then have lk: "?look ''Campaign Data 16'' = take_rows perm (keep_rows mk dates)"
    by (simp add: lookup_column_def map_of_map_values mo)
  have "?name \<in> set (column_names ?renamed)"
    using g by (rule get_column_Inr)
  then have "get_column ?out ?name = Inr (map (\<lambda>d. Str (reformat_date_string d)) (?look ''Campaign Data 16''))"
    by (rule get_set_column)
  then show ?thesis
    using body ix lk by (simp add: process_csv_def)
qed

lemma wf_frame_column_length:
  assumes "wf_frame df" "get_column df c = Inr v"
  shows "length v = length (index df)" and "index df = [0..<length (index df)]"
proof -
  from assms(2) have "map_of (columns df) c = Some v"
    by (auto simp: get_column_def split: option.splits)
  then have "(c, v) \<in> set (columns df)" by (rule map_of_SomeD)
  then show "length v = length (index df)"
    using assms(1) by (auto simp: wf_frame_def list_all_iff)
  show "index df = [0..<length (index df)]" using assms(1) by (simp add: wf_frame_def)
qed



lemma process_csv_rows:
  assumes rd: "read_csv e f = Inr df" and wf: "wf_frame df"
    and col: "get_column df ''Campaign Data 16'' = Inr dates"
    and keep: "set COLUMNS_TO_KEEP \<subseteq> set (column_names df)"
    and len: "length (to_datetime e dates) = length dates"
    and perm: "sort (argsort e ks) = [0..<length ks]"
    and ks: "ks = keep_rows (map (\<lambda>d. map_option ts_month d = Some m) (to_datetime e dates))
                    (to_datetime e dates)"
  shows "\<exists>out. process_csv e f m = Inr out
           \<and> mset (index out)
               = mset (filter (\<lambda>i. map_option ts_month (to_datetime e dates ! i) = Some m)
                         [0..<length (index df)])
           \<and> map (\<lambda>i. to_datetime e dates ! i) (index out) = map (\<lambda>j. ks ! j) (argsort e ks)
           \<and> get_column out ''Monthly Donation Start Date''
               = Inr (map (\<lambda>d. Str (reformat_date_string d))
                        (take_rows (argsort e ks)
                           (keep_rows (map (\<lambda>d. map_option ts_month d = Some m) (to_datetime e dates)) dates)))"
proof -
  let ?pd = "to_datetime e dates"
  let ?n = "length (index df)"
  define mk where "mk = map (\<lambda>d. map_option ts_month d = Some m) ?pd"
  define p where "p = argsort e (keep_rows mk ?pd)"
  let ?F = "filter (\<lambda>i. mk ! i) [0..<?n]"
  have ln: "length dates = ?n" and ix: "index df = [0..<?n]"
    using wf_frame_column_length [OF wf col] by auto
  have lmk: "length mk = ?n" and lpd: "length ?pd = ?n" using len ln by (simp_all add: mk_def)
  obtain out where o: "process_csv e f m = Inr out"
    and oi: "index out = take_rows p (keep_rows mk (index df))"
    and oc: "get_column out ''Monthly Donation Start Date''
               = Inr (map (\<lambda>d. Str (reformat_date_string d)) (take_rows p (keep_rows mk dates)))"
    using process_csv_result [OF rd col keep mk_def p_def] by blast
  have kF: "keep_rows mk (index df) = ?F"
    using keep_rows_upt [OF lmk] ix by simp
  have kpd: "keep_rows mk ?pd = map (\<lambda>i. ?pd ! i) ?F"
    using keep_rows_nth [of mk ?pd] lmk lpd by simp
  have ksp: "ks = keep_rows mk ?pd" and pp: "p = argsort e ks" by (simp_all add: ks mk_def p_def)
  have lks: "length ks = length ?F" by (simp add: ksp kpd)
  have sp: "sort p = [0..<length ?F]" using perm lks pp by simp
  have F: "?F = filter (\<lambda>i. map_option ts_month (?pd ! i) = Some m) [0..<?n]"
    using lpd by (intro filter_cong) (auto simp: mk_def)
  have m: "mset (index out) = mset ?F"
    unfolding oi kF using sp by (rule take_rows_mset)
  have pl: "\<forall>j\<in>set p. j < length ?F" using perm_positions(2) [OF sp] by auto
  have "map (\<lambda>i. ?pd ! i) (index out) = map (\<lambda>j. ?pd ! (?F ! j)) p"
    by (simp add: oi kF take_rows_def comp_def)
  also have "\<dots> = map (\<lambda>j. ks ! j) p"
    using pl by (intro map_cong) (auto simp: ksp kpd)
  finally have d: "map (\<lambda>i. ?pd ! i) (index out) = map (\<lambda>j. ks ! j) (argsort e ks)"
    by (simp add: pp)
  have m': "mset (index out)
               = mset (filter (\<lambda>i. map_option ts_month (?pd ! i) = Some m) [0..<?n])"
    using m unfolding F .
  have oc': "get_column out ''Monthly Donation Start Date''
               = Inr (map (\<lambda>d. Str (reformat_date_string d))
                        (take_rows (argsort e ks)
                           (keep_rows (map (\<lambda>d. map_option ts_month d = Some m) ?pd) dates)))"
    using oc unfolding pp mk_def .
  show ?thesis
    using o m' d oc' by blast
qed

lemma stable_argsort_ok_gen:
  assumes "mset xs = mset [0..<length ks]"
  shows "argsort_ok ks (sort_key (\<lambda>i. na_last (ks ! i)) xs)"
proof -
  let ?p = "sort_key (\<lambda>i. na_last (ks ! i)) xs"
  have "mset ?p = mset [0..<length ks]" using assms by simp
  then have 1: "sort ?p = [0..<length ks]"
    by (metis sorted_upt properties_for_sort mset_sort sorted_sort sorted_sort_id)
  have mono: "na_last a \<le> na_last b \<Longrightarrow> date_le a b" for a b
    by (auto simp: na_last_def date_le_def split: option.splits)
  have "sorted (map (\<lambda>i. na_last (ks ! i)) ?p)" by (rule sorted_sort_key)
  then have "sorted_wrt (\<lambda>i j. na_last (ks ! i) \<le> na_last (ks ! j)) ?p"
    by (simp add: sorted_map)
  then have "sorted_wrt (\<lambda>i j. date_le (ks ! i) (ks ! j)) ?p"
    by (rule sorted_wrt_mono_rel [rotated]) (use mono in auto)
  then have 2: "sorted_wrt date_le (map (\<lambda>i. ks ! i) ?p)"
    by (simp add: sorted_wrt_map)
  show ?thesis using 1 2 by (simp add: argsort_ok_def)
qed

lemma stable_argsort_ok: "argsort_ok ks (stable_argsort ks)"
  unfolding stable_argsort_def by (rule stable_argsort_ok_gen) simp

lemma sample_frame_wf: "wf_frame (sample_frame dates)"
  by (simp add: wf_frame_def sample_frame_def list_all_iff COLUMNS_TO_KEEP_def)

lemma sample_frame_dates: "get_column (sample_frame dates) ''Campaign Data 16'' = Inr dates"
  by (simp add: get_column_def sample_frame_def COLUMNS_TO_KEEP_def)

lemma sample_frame_keep: "set COLUMNS_TO_KEEP \<subseteq> set (column_names (sample_frame dates))"
  by (auto simp: column_names_def sample_frame_def comp_def)

lemma sample_env_simps:
  "read_csv (sample_env df srt) ''donors.csv'' = Inr df"
  "to_datetime (sample_env df srt) = map dayfirst_slash_parse"
  "argsort (sample_env df srt) = srt"
  "path_exists (sample_env df srt) ''donors.csv''"
  by (simp_all add: sample_env_def)

lemma argsort_two:
  assumes "argsort_ok [Some a, Some b] p" "a < b"
  shows "p = [0, 1]"
proof -
  have s: "sort p = [0, 1]" using assms(1) by (simp add: argsort_ok_def)
  have "length (sort p) = 2" unfolding s by simp
  then have "length p = 2" by simp
  then obtain x y where p: "p = [x, y]"
    by (auto simp: length_Suc_conv numeral_2_eq_2)
  have "(x = 0 \<and> y = 1) \<or> (x = 1 \<and> y = 0)"
    using s unfolding p by (auto split: if_splits)
  moreover have "\<not> (x = 1 \<and> y = 0)"
  proof
    assume "x = 1 \<and> y = 0"
    then have "date_le (Some b) (Some a)" using assms(1) by (simp add: argsort_ok_def p)
    then show False using assms(2) by (simp add: date_le_def)
  qed
  ultimately show ?thesis using p by auto
qed

lemma scenario_reformat:
  "map (\<lambda>d. Str (reformat_date_string d)) [Str ''5/3/2024'', Str ''20/3/2024'']
    = [Str ''03/05/2024'', Str ''03/20/2024'']"
  by code_simp

lemma lookup_column_mapped:
  "c \<in> set (map fst cols) \<Longrightarrow>
   lookup_column (map (\<lambda>(c, v). (c, g v)) cols) c = g (lookup_column cols c)"
proof -
  assume "c \<in> set (map fst cols)"
  then obtain v where "map_of cols c = Some v"
    by (metis map_of_eq_None_iff not_Some_eq set_map)
  then show ?thesis by (simp add: lookup_column_def map_of_map_values)
qed

lemma process_csv_value:
  assumes rd: "read_csv e f = Inr df"
    and col: "get_column df ''Campaign Data 16'' = Inr dates"
    and keep: "set COLUMNS_TO_KEEP \<subseteq> set (column_names df)"
    and mk: "mk = map (\<lambda>d. map_option ts_month d = Some m) (to_datetime e dates)"
    and perm: "perm = argsort e (keep_rows mk (to_datetime e dates))"
  shows "\<exists>out. process_csv e f m = Inr out
           \<and> index out = take_rows perm (keep_rows mk (index df))
           \<and> columns out =
               map (\<lambda>c. (renamed c,
                          map (output_cell c)
                            (take_rows perm (keep_rows mk (lookup_column (columns df) c)))))
                 COLUMNS_TO_KEEP"
proof -
  let ?pd = "to_datetime e dates"
  let ?df1 = "dataframe.extend df \<lparr>parsed_date = ?pd, parsed_month = map (map_option ts_month) ?pd\<rparr>"
  let ?sorted = "sort_values e (select_rows mk ?df1)"
  let ?look = "lookup_column (columns ?sorted)"
  let ?kept = "\<lparr>index = index ?sorted, columns = map (\<lambda>c. (c, ?look c)) COLUMNS_TO_KEEP\<rparr>"
  let ?renamed = "rename_columns COLUMNS_TO_RENAME ?kept"
  let ?name = "''Monthly Donation Start Date''"
  let ?out = "set_column ?renamed ?name (map (\<lambda>d. Str (reformat_date_string d)) (?look ''Campaign Data 16''))"
  let ?T = "\<lambda>v. take_rows perm (keep_rows mk v)"
  have present: "''Campaign Data 16'' \<in> set (column_names df)"
    using col by (rule get_column_Inr)
  have mk': "map (\<lambda>pm. pm = Some m) (parsed_month ?df1) = mk"
    by (simp add: mk dataframe.defs comp_def)
  have cn: "column_names ?df1 = column_names df"
    by (simp add: column_names_def dataframe.defs)
  have sel: "select_columns ?sorted COLUMNS_TO_KEEP = Inr ?kept"
    using keep by (intro select_columns_ok) (simp add: cn)
  have g: "get_column ?renamed ?name = Inr (?look ''Campaign Data 16'')"
    by (rule renamed_date_column)
  have body: "process_csv_body e f m = Inr ?out"
    unfolding process_csv_body_def
    using rd present col sel g by (simp add: Let_def mk')
  have pdate: "parsed_date (select_rows mk ?df1) = keep_rows mk ?pd"
    by (simp add: select_rows_def dataframe.defs)
  have ix: "index ?out = take_rows perm (keep_rows mk (index df))"
    by (simp add: sort_values_def Let_def pdate perm select_rows_def dataframe.defs)
  have cs: "columns ?sorted = map (\<lambda>(c, v). (c, ?T v)) (columns df)"
    by (simp add: sort_values_def Let_def pdate perm select_rows_def dataframe.defs
        case_prod_unfold comp_def)
  have lk: "?look c = ?T (lookup_column (columns df) c)" if "c \<in> set COLUMNS_TO_KEEP" for c
  proof -
    have "c \<in> set (map fst (columns df))" using that keep by (auto simp: column_names_def)
    then show ?thesis unfolding cs by (rule lookup_column_mapped)
  qed
  have nm: "?name \<in> set (column_names ?renamed)"
    using g by (rule get_column_Inr)
  have "columns ?out =
          map (\<lambda>c. (renamed c, map (output_cell c) (?look c))) COLUMNS_TO_KEEP"
    using nm
    by (simp add: set_column_def rename_columns_def renamed_def output_cell_def [abs_def]
        column_names_def COLUMNS_TO_KEEP_def COLUMNS_TO_RENAME_def)
  also have "\<dots> = map (\<lambda>c. (renamed c, map (output_cell c) (?T (lookup_column (columns df) c))))
                     COLUMNS_TO_KEEP"
    by (intro map_cong refl) (simp add: lk)
  finally have co: "columns ?out =
      map (\<lambda>c. (renamed c, map (output_cell c) (?T (lookup_column (columns df) c)))) COLUMNS_TO_KEEP" .
  show ?thesis
    using body ix co by (simp add: process_csv_def)
qed

lemma take_keep_rows:
  assumes "length mk = n" "length v = n" "\<forall>j\<in>set perm. j < length (filter (\<lambda>i. mk ! i) [0..<n])"
  shows "take_rows perm (keep_rows mk v)
           = map (\<lambda>i. v ! i) (take_rows perm (keep_rows mk [0..<n]))"
proof -
  let ?F = "filter (\<lambda>i. mk ! i) [0..<n]"
  have 1: "keep_rows mk v = map (\<lambda>i. v ! i) ?F"
    using keep_rows_nth [of mk v] assms(1,2) by simp
  have 2: "keep_rows mk [0..<n] = ?F" using keep_rows_upt [OF assms(1)] .
  show ?thesis
    unfolding 1 2 take_rows_def using assms(3) by (simp add: comp_def)
qed

lemma process_csv_cells:
  assumes rd: "read_csv e f = Inr df" and wf: "wf_frame df"
    and col: "get_column df ''Campaign Data 16'' = Inr dates"
    and keep: "set COLUMNS_TO_KEEP \<subseteq> set (column_names df)"
    and len: "length (to_datetime e dates) = length dates"
    and perm: "sort (argsort e ks) = [0..<length ks]"
    and ks: "ks = keep_rows (map (\<lambda>d. map_option ts_month d = Some m) (to_datetime e dates))
                    (to_datetime e dates)"
    and ok: "process_csv e f m = Inr out"
  shows "columns out = rows_at df (index out)"
proof -
  let ?pd = "to_datetime e dates"
  let ?n = "length (index df)"
  define mk where "mk = map (\<lambda>d. map_option ts_month d = Some m) ?pd"
  define p where "p = argsort e (keep_rows mk ?pd)"
  let ?F = "filter (\<lambda>i. mk ! i) [0..<?n]"
  have ln: "length dates = ?n" and ix: "index df = [0..<?n]"
    using wf_frame_column_length [OF wf col] by auto
  have lmk: "length mk = ?n" and lpd: "length ?pd = ?n" using len ln by (simp_all add: mk_def)
  obtain out' where o: "process_csv e f m = Inr out'"
    and oi: "index out' = take_rows p (keep_rows mk (index df))"
    and oc: "columns out' =
               map (\<lambda>c. (renamed c,
                          map (output_cell c)
                            (take_rows p (keep_rows mk (lookup_column (columns df) c)))))
                 COLUMNS_TO_KEEP"
    using process_csv_value [OF rd col keep mk_def p_def] by blast
  have eq: "out' = out" using o ok by simp
  have kpd: "keep_rows mk ?pd = map (\<lambda>i. ?pd ! i) ?F"
    using keep_rows_nth [of mk ?pd] lmk lpd by simp
  have ksp: "ks = keep_rows mk ?pd" and pp: "p = argsort e ks" by (simp_all add: ks mk_def p_def)
  have lks: "length ks = length ?F" by (simp add: ksp kpd)
  have sp: "sort p = [0..<length ?F]" using perm lks pp by simp
  have pl: "\<forall>j\<in>set p. j < length ?F" using perm_positions(2) [OF sp] by auto
  have cell: "take_rows p (keep_rows mk (lookup_column (columns df) c))
                = map (\<lambda>i. lookup_column (columns df) c ! i) (index out)"
    if "c \<in> set COLUMNS_TO_KEEP" for c
  proof -
    have "c \<in> set (map fst (columns df))" using that keep by (auto simp: column_names_def)
    then obtain v where v: "map_of (columns df) c = Some v"
      by (metis map_of_eq_None_iff not_Some_eq set_map)
    then have "get_column df c = Inr v" by (simp add: get_column_def)
    then have lv: "length v = ?n" using wf by (rule wf_frame_column_length(1) [rotated])
    have "lookup_column (columns df) c = v" using v by (simp add: lookup_column_def)
    then show ?thesis
      using take_keep_rows [OF lmk lv pl] oi eq ix by simp
  qed
  have "columns out = map (\<lambda>c. (renamed c,
                          map (output_cell c)
                            (take_rows p (keep_rows mk (lookup_column (columns df) c)))))
                 COLUMNS_TO_KEEP"
    using oc eq by simp
  also have "\<dots> = rows_at df (index out)"
    unfolding rows_at_def by (intro map_cong refl) (simp add: cell comp_def)
  finally show ?thesis .
qed

section \<open>Claims about the Table Filter/Projector\<close>

text \<open>
  C1, as amended. For a table as the reader returns it that has all fifteen columns of
  \<open>COLUMNS_TO_KEEP\<close> (the date column among them), and every target month, \<open>process_csv\<close>
  succeeds, and the row labelled \<open>i\<close> is in the output exactly when the library's parse
  of its date cell is a date whose month is the target month. A row whose date does not
  parse is therefore never in the output. No row appears twice, and the output has at
  most as many rows as the input. The cells of the output are the cells of those input
  rows: the output table is \<open>rows_at\<close> of the input at the output's labels. The library
  calls of lines 62 to 69 are assumed not to raise, the parser to return one value for
  each cell, and the ordering of positions to be a permutation.
\<close>

theorem process_csv_keeps_target_month:
  assumes rd: "read_csv e f = Inr df" and wf: "wf_frame df"
    and col: "get_column df ''Campaign Data 16'' = Inr dates"
    and keep: "set COLUMNS_TO_KEEP \<subseteq> set (column_names df)"
    and len: "length (to_datetime e dates) = length dates"
    and perm: "\<forall>ks. sort (argsort e ks) = [0..<length ks]"
  shows "\<exists>out. process_csv e f m = Inr out
           \<and> (\<forall>i. i \<in> set (index out) \<longleftrightarrow>
                  i < length (index df) \<and> (\<exists>t. to_datetime e dates ! i = Some t \<and> ts_month t = m))
           \<and> distinct (index out) \<and> length (index out) \<le> length (index df)
           \<and> columns out = rows_at df (index out)"
proof -
  let ?F = "filter (\<lambda>i. map_option ts_month (to_datetime e dates ! i) = Some m) [0..<length (index df)]"
  obtain out where o: "process_csv e f m = Inr out" and ms: "mset (index out) = mset ?F"
    using process_csv_rows [OF rd wf col keep len perm [rule_format] refl] by blast
  have c: "columns out = rows_at df (index out)"
    using process_csv_cells [OF rd wf col keep len perm [rule_format] refl o] .
  have s: "set (index out) = set ?F" using ms by (rule mset_eq_setD)
  have d: "distinct (index out)"
    using ms by (metis distinct_filter distinct_upt mset_eq_imp_distinct_iff)
  have "length (index out) = length ?F" using ms by (rule mset_eq_length)
  then have l: "length (index out) \<le> length (index df)"
    by (metis length_filter_le length_upt diff_zero)
  have "\<forall>i. i \<in> set (index out) \<longleftrightarrow>
          i < length (index df) \<and> (\<exists>t. to_datetime e dates ! i = Some t \<and> ts_month t = m)"
    unfolding s by auto
  then show ?thesis using o d l c by blast
qed

theorem process_csv_keeps_target_month_witness:
  "read_csv (sample_env (sample_frame scenario_dates) stable_argsort) ''donors.csv''
     = Inr (sample_frame scenario_dates)
   \<and> wf_frame (sample_frame scenario_dates)
   \<and> get_column (sample_frame scenario_dates) ''Campaign Data 16'' = Inr scenario_dates
   \<and> set COLUMNS_TO_KEEP \<subseteq> set (column_names (sample_frame scenario_dates))
   \<and> length (to_datetime (sample_env (sample_frame scenario_dates) stable_argsort) scenario_dates)
       = length scenario_dates
   \<and> (\<forall>ks. sort (argsort (sample_env (sample_frame scenario_dates) stable_argsort) ks)
            = [0..<length ks])
   \<and> (\<exists>out. process_csv (sample_env (sample_frame scenario_dates) stable_argsort) ''donors.csv'' 3
              = Inr out
           \<and> (\<forall>i. i \<in> set (index out) \<longleftrightarrow>
                  i < length (index (sample_frame scenario_dates))
                  \<and> (\<exists>t. to_datetime (sample_env (sample_frame scenario_dates) stable_argsort)
                            scenario_dates ! i = Some t \<and> ts_month t = 3))
           \<and> distinct (index out)
           \<and> length (index out) \<le> length (index (sample_frame scenario_dates))
           \<and> columns out = rows_at (sample_frame scenario_dates) (index out))"
proof -
  let ?e = "sample_env (sample_frame scenario_dates) stable_argsort"
  have 1: "read_csv ?e ''donors.csv'' = Inr (sample_frame scenario_dates)"
    by (simp add: sample_env_simps)
  have 2: "wf_frame (sample_frame scenario_dates)" by (rule sample_frame_wf)
  have 3: "get_column (sample_frame scenario_dates) ''Campaign Data 16'' = Inr scenario_dates"
    by (rule sample_frame_dates)
  have 4: "set COLUMNS_TO_KEEP \<subseteq> set (column_names (sample_frame scenario_dates))"
    by (rule sample_frame_keep)
  have 5: "length (to_datetime ?e scenario_dates) = length scenario_dates"
    by (simp add: sample_env_simps)
  have 6: "\<forall>ks. sort (argsort ?e ks) = [0..<length ks]"
    using stable_argsort_ok by (simp add: sample_env_simps argsort_ok_def)
  show ?thesis
    using process_csv_keeps_target_month [OF 1 2 3 4 5 6, of 3] 1 2 3 4 5 6 by blast
qed

text \<open>
  C1 as stated fails: a table that has the date column but not the other required
  columns has a row of the target month, and \<open>process_csv\<close> returns no table at all,
  because the projection of line 72 raises.
\<close>

theorem process_csv_date_column_only_counterexample:
  "''Campaign Data 16'' \<in> set (column_names date_only_frame)
   \<and> to_datetime (sample_env date_only_frame stable_argsort) [Str ''5/3/2024'']
       = [Some (2024, 3, 5, 0)]
   \<and> process_csv (sample_env date_only_frame stable_argsort) ''donors.csv'' 3
       = Inl (ProcessingError (MissingColumns
           [''Supporter ID'', ''Supporter Email'', ''Campaign ID'', ''Organization or Company'',
            ''First Name'', ''Last Name'', ''Partner Name'', ''Address 1'', ''City'', ''State'',
            ''ZIP Code'', ''Raisers Edge Constituent ID'', ''Assigned Region'',
            ''Campaign Data 4'']))"
  by code_simp

text \<open>
  C2. For a table whose date column holds 5/3/2024, 20/3/2024 and 1/4/2024, with the
  required columns present, and target month 3, \<open>process_csv\<close> returns two rows: the
  row of 5/3/2024 (label 0) before the row of 20/3/2024 (label 1), with the rewritten
  date cells 03/05/2024 and 03/20/2024. The library is assumed to parse the three cells
  day first, and to order the two retained dates according to \<open>argsort_ok\<close>.
\<close>

theorem process_csv_scenario:
  assumes rd: "read_csv e f = Inr df" and wf: "wf_frame df"
    and col: "get_column df ''Campaign Data 16'' = Inr scenario_dates"
    and keep: "set COLUMNS_TO_KEEP \<subseteq> set (column_names df)"
    and parse: "to_datetime e scenario_dates
                  = [Some (2024, 3, 5, 0), Some (2024, 3, 20, 0), Some (2024, 4, 1, 0)]"
    and srt: "argsort_ok [Some (2024, 3, 5, 0), Some (2024, 3, 20, 0)]
                (argsort e [Some (2024, 3, 5, 0), Some (2024, 3, 20, 0)])"
  shows "\<exists>out. process_csv e f 3 = Inr out \<and> index out = [0, 1]
           \<and> length (index out) = 2
           \<and> get_column out ''Monthly Donation Start Date''
               = Inr [Str ''03/05/2024'', Str ''03/20/2024'']"
proof -
  define mk where "mk = map (\<lambda>d. map_option ts_month d = Some 3) (to_datetime e scenario_dates)"
  define p where "p = argsort e (keep_rows mk (to_datetime e scenario_dates))"
  have mk: "mk = [True, True, False]" by (simp add: mk_def parse ts_month_def)
  have ks: "keep_rows mk (to_datetime e scenario_dates)
              = [Some (2024, 3, 5, 0), Some (2024, 3, 20, 0)]"
    by (simp add: mk parse keep_rows_def)
  have "(2024, 3, 5, 0) < ((2024, 3, 20, 0) :: timestamp)" by simp
  then have p: "p = [0, 1]" using srt argsort_two by (simp add: p_def ks)
  have l3: "length (index df) = 3"
    using wf_frame_column_length(1) [OF wf col] by (simp add: scenario_dates_def)
  have "index df = [0..<length (index df)]"
    using wf col by (rule wf_frame_column_length(2))
  also have "\<dots> = [0..<3]" by (simp only: l3)
  also have "\<dots> = [0, 1, 2]" by code_simp
  finally have ix: "index df = [0, 1, 2]" .
  obtain out where o: "process_csv e f 3 = Inr out"
    and oi: "index out = take_rows p (keep_rows mk (index df))"
    and oc: "get_column out ''Monthly Donation Start Date''
               = Inr (map (\<lambda>d. Str (reformat_date_string d)) (take_rows p (keep_rows mk scenario_dates)))"
    using process_csv_result [OF rd col keep mk_def p_def] by blast
  have i: "index out = [0, 1]" by (simp add: oi p mk ix keep_rows_def take_rows_def)
  have "take_rows p (keep_rows mk scenario_dates) = [Str ''5/3/2024'', Str ''20/3/2024'']"
    by (simp add: p mk scenario_dates_def keep_rows_def take_rows_def)
  then have c: "get_column out ''Monthly Donation Start Date''
               = Inr [Str ''03/05/2024'', Str ''03/20/2024'']"
    using oc scenario_reformat by simp
  show ?thesis using o i c by simp
qed

theorem process_csv_scenario_witness:
  "read_csv (sample_env (sample_frame scenario_dates) stable_argsort) ''donors.csv''
     = Inr (sample_frame scenario_dates)
   \<and> wf_frame (sample_frame scenario_dates)
   \<and> get_column (sample_frame scenario_dates) ''Campaign Data 16'' = Inr scenario_dates
   \<and> set COLUMNS_TO_KEEP \<subseteq> set (column_names (sample_frame scenario_dates))
   \<and> to_datetime (sample_env (sample_frame scenario_dates) stable_argsort) scenario_dates
       = [Some (2024, 3, 5, 0), Some (2024, 3, 20, 0), Some (2024, 4, 1, 0)]
   \<and> argsort_ok [Some (2024, 3, 5, 0), Some (2024, 3, 20, 0)]
        (argsort (sample_env (sample_frame scenario_dates) stable_argsort)
           [Some (2024, 3, 5, 0), Some (2024, 3, 20, 0)])
   \<and> (\<exists>out. process_csv (sample_env (sample_frame scenario_dates) stable_argsort) ''donors.csv'' 3
              = Inr out
         \<and> index out = [0, 1] \<and> length (index out) = 2
         \<and> get_column out ''Monthly Donation Start Date''
             = Inr [Str ''03/05/2024'', Str ''03/20/2024''])"
proof -
  let ?e = "sample_env (sample_frame scenario_dates) stable_argsort"
  have 1: "read_csv ?e ''donors.csv'' = Inr (sample_frame scenario_dates)"
    by (simp add: sample_env_simps)
  have 2: "wf_frame (sample_frame scenario_dates)" by (rule sample_frame_wf)
  have 3: "get_column (sample_frame scenario_dates) ''Campaign Data 16'' = Inr scenario_dates"
    by (rule sample_frame_dates)
  have 4: "set COLUMNS_TO_KEEP \<subseteq> set (column_names (sample_frame scenario_dates))"
    by (rule sample_frame_keep)
  have 5: "to_datetime ?e scenario_dates
       = [Some (2024, 3, 5, 0), Some (2024, 3, 20, 0), Some (2024, 4, 1, 0)]"
    by code_simp
  have 6: "argsort_ok [Some (2024, 3, 5, 0), Some (2024, 3, 20, 0)]
        (argsort ?e [Some (2024, 3, 5, 0), Some (2024, 3, 20, 0)])"
    using stable_argsort_ok by (simp add: sample_env_simps)
  note 7 = process_csv_scenario [OF 1 2 3 4 5 6]
  show ?thesis
    by (intro conjI 1 2 3 4 5 6 7)
qed




text \<open>
  C6. Whenever \<open>process_csv\<close> succeeds, the column names of the output, in order, are
  the fixed renamed list, whatever other columns the input has.
\<close>

theorem process_csv_output_columns:
  assumes "process_csv e f m = Inr out"
  shows "map fst (columns out) =
     [''Supporter ID'', ''Supporter Email'', ''Campaign ID'', ''Organization or Company'',
      ''First Name'', ''Last Name'', ''Partner Name'', ''Address 1'', ''City'', ''State'',
      ''ZIP Code'', ''Raisers Edge Constituent ID'', ''Assigned Region'', ''Donation Amount'',
      ''Monthly Donation Start Date'']"
  using process_csv_columns [OF assms] by (simp add: column_names_def)

theorem process_csv_output_columns_witness:
  "\<exists>out. process_csv (sample_env (sample_frame scenario_dates) stable_argsort) ''donors.csv'' 3
            = Inr out
     \<and> ''Extra'' \<in> set (map fst (columns (sample_frame scenario_dates)))
     \<and> map fst (columns out) =
     [''Supporter ID'', ''Supporter Email'', ''Campaign ID'', ''Organization or Company'',
      ''First Name'', ''Last Name'', ''Partner Name'', ''Address 1'', ''City'', ''State'',
      ''ZIP Code'', ''Raisers Edge Constituent ID'', ''Assigned Region'', ''Donation Amount'',
      ''Monthly Donation Start Date'']"
proof -
  let ?e = "sample_env (sample_frame scenario_dates) stable_argsort"
  obtain out where o: "process_csv ?e ''donors.csv'' 3 = Inr out"
    using process_csv_result [OF sample_env_simps(1) sample_frame_dates sample_frame_keep refl refl]
    by blast
  have x: "''Extra'' \<in> set (map fst (columns (sample_frame scenario_dates)))"
    by (simp add: sample_frame_def)
  show ?thesis
    by (rule exI [of _ out]) (intro conjI o x process_csv_output_columns [OF o])
qed

section \<open>Facts about the writer and the command line\<close>

lemma month_names_none: "m < 1 \<or> 12 < m \<Longrightarrow> map_of MONTH_NAMES m = None"
  by (auto simp: MONTH_NAMES_def)

lemma month_names_some: "1 \<le> m \<Longrightarrow> m \<le> 12 \<Longrightarrow> \<exists>name. map_of MONTH_NAMES m = Some name"
proof -
  assume "1 \<le> m" "m \<le> 12"
  then have "m = 1 \<or> m = 2 \<or> m = 3 \<or> m = 4 \<or> m = 5 \<or> m = 6 \<or> m = 7 \<or> m = 8
             \<or> m = 9 \<or> m = 10 \<or> m = 11 \<or> m = 12" by arith
  then show ?thesis by (auto simp: MONTH_NAMES_def)
qed

lemma process_csv_missing_date_column:
  assumes "read_csv e f = Inr df" "''Campaign Data 16'' \<notin> set (column_names df)"
  shows "process_csv e f m
         = Inl (ProcessingError (ValueError (''Column '' @ [CHR 0x27] @ ''Campaign Data 16''
                  @ [CHR 0x27] @ '' not found in CSV file'')))"
  using assms by (simp add: process_csv_def process_csv_body_def)

lemma cli_with_file_no_write:
  assumes "\<And>m. \<exists>x. process_csv e f m = Inl x"
  shows "filter is_write (cli_with_file e f argv stdin) = []"
proof -
  have p: "filter is_write (cli_pipeline e f m) = []" for m
    using assms [of m]
    by (auto simp: cli_pipeline_def is_write_def split: option.splits)
  have c: "filter is_write (cli_check_month e f m) = []" for m
    using p by (simp add: cli_check_month_def is_write_def)
  have g: "filter is_write (cli_get_month e f argv stdin) = []"
    using c
    by (auto simp: cli_get_month_def is_write_def filter_empty_conv
        split: option.splits list.splits)
  show ?thesis
    using g by (simp add: cli_with_file_def is_write_def)
qed

section \<open>Claims about failures, the command line and the Output Writer\<close>

text \<open>
  C8. For a table without the column \<^verbatim>\<open>Campaign Data 16\<close> and every target month,
  \<open>process_csv\<close> fails with the error of line 59, wrapped by the handler of line 83; and
  a run of the command line on that file, whether the path comes from the arguments or
  from the prompt, writes no file.
\<close>

theorem missing_date_column_fails:
  assumes rd: "read_csv e f = Inr df"
    and miss: "''Campaign Data 16'' \<notin> set (column_names df)"
  shows "process_csv e f m
           = Inl (ProcessingError (ValueError (''Column '' @ [CHR 0x27] @ ''Campaign Data 16''
                    @ [CHR 0x27] @ '' not found in CSV file'')))
         \<and> (length argv > 1 \<and> argv ! 1 = f \<longrightarrow> filter is_write (run_cli e argv stdin) = [])
         \<and> (length argv \<le> 1 \<and> py_strip line = f \<longrightarrow>
               filter is_write (run_cli e argv (line # rest)) = [])"
proof -
  have f: "\<And>m. \<exists>x. process_csv e f m = Inl x"
    using process_csv_missing_date_column [OF rd miss] by blast
  have w: "filter is_write (cli_with_file e f a s) = []" for a s
    using f by (rule cli_with_file_no_write)
  have 1: "length argv > 1 \<and> argv ! 1 = f \<longrightarrow> filter is_write (run_cli e argv stdin) = []"
    using w by (auto simp: run_cli_def is_write_def)
  have 2: "length argv \<le> 1 \<and> py_strip line = f \<longrightarrow>
               filter is_write (run_cli e argv (line # rest)) = []"
    using w by (auto simp: run_cli_def is_write_def)
  show ?thesis
    using process_csv_missing_date_column [OF rd miss] 1 2 by simp
qed

theorem missing_date_column_fails_witness:
  "read_csv (sample_env no_date_frame stable_argsort) ''donors.csv'' = Inr no_date_frame
   \<and> ''Campaign Data 16'' \<notin> set (column_names no_date_frame)
   \<and> process_csv (sample_env no_date_frame stable_argsort) ''donors.csv'' 3
       = Inl (ProcessingError (ValueError (''Column '' @ [CHR 0x27] @ ''Campaign Data 16''
                @ [CHR 0x27] @ '' not found in CSV file'')))
   \<and> length [''main.py'', ''donors.csv'', ''3''] > 1
   \<and> [''main.py'', ''donors.csv'', ''3''] ! 1 = ''donors.csv''
   \<and> filter is_write (run_cli (sample_env no_date_frame stable_argsort)
                         [''main.py'', ''donors.csv'', ''3''] []) = []
   \<and> run_cli (sample_env no_date_frame stable_argsort) [''main.py'', ''donors.csv'', ''3''] []
       = [Print ''CLI Mode'', Print ''========================================'',
          PathExists ''donors.csv'',
          Print (CHR 0x0A # ''Processing CSV file: donors.csv''),
          Print ''Filtering for month: March'',
          ReadCsv ''donors.csv'',
          PrintError (ProcessingError (ValueError (''Column '' @ [CHR 0x27] @ ''Campaign Data 16''
                @ [CHR 0x27] @ '' not found in CSV file'')))]"
proof -
  let ?e = "sample_env no_date_frame stable_argsort"
  have 1: "read_csv ?e ''donors.csv'' = Inr no_date_frame" by (simp add: sample_env_simps)
  have 2: "''Campaign Data 16'' \<notin> set (column_names no_date_frame)"
    by (simp add: column_names_def no_date_frame_def)
  have 3: "length [''main.py'', ''donors.csv'', ''3''] > 1
           \<and> [''main.py'', ''donors.csv'', ''3''] ! 1 = ''donors.csv''" by simp
  have 4: "run_cli ?e [''main.py'', ''donors.csv'', ''3''] []
       = [Print ''CLI Mode'', Print ''========================================'',
          PathExists ''donors.csv'',
          Print (CHR 0x0A # ''Processing CSV file: donors.csv''),
          Print ''Filtering for month: March'',
          ReadCsv ''donors.csv'',
          PrintError (ProcessingError (ValueError (''Column '' @ [CHR 0x27] @ ''Campaign Data 16''
                @ [CHR 0x27] @ '' not found in CSV file'')))]"
    by code_simp
  note 5 = missing_date_column_fails [OF 1 2, of 3 "[''main.py'', ''donors.csv'', ''3'']" "[]"]
  show ?thesis
    using 1 2 3 4 5 by simp
qed

text \<open>
  C9, as amended. When the month argument is not accepted by \<^verbatim>\<open>int\<close> or is outside 1
  to 12, the run touches the file system exactly once: the existence check of the input
  path, which comes before the month is looked at. The file is never read and nothing is
  written. If the path exists the run ends with the month's error message; if it does
  not, the run ends with the message that the file was not found.
\<close>

theorem run_cli_bad_month:
  assumes "length argv > 2"
    and "case py_int (argv ! 2) of None \<Rightarrow> True | Some m \<Rightarrow> m < 1 \<or> 12 < m"
  shows "filter is_file_op (run_cli e argv stdin) = [PathExists (argv ! 1)]
         \<and> (path_exists e (argv ! 1) \<longrightarrow>
              run_cli e argv stdin
                = [Print ''CLI Mode'', Print (replicate 40 (CHR ''='')), PathExists (argv ! 1),
                   Print (case py_int (argv ! 2) of
                            None \<Rightarrow> ''Error: Month must be a number between 1-12''
                          | Some m \<Rightarrow> ''Error: Month must be between 1 and 12'')])
         \<and> (\<not> path_exists e (argv ! 1) \<longrightarrow>
              run_cli e argv stdin
                = [Print ''CLI Mode'', Print (replicate 40 (CHR ''='')), PathExists (argv ! 1),
                   Print (''Error: File '' @ [CHR 0x27] @ argv ! 1 @ [CHR 0x27] @ '' not found'')])"
  using assms
  by (auto simp: run_cli_def cli_with_file_def cli_get_month_def cli_check_month_def is_file_op_def
      split: option.splits)

theorem run_cli_bad_month_witness:
  "length [''main.py'', ''donors.csv'', ''13''] > 2
   \<and> (case py_int ([''main.py'', ''donors.csv'', ''13''] ! 2) of
         None \<Rightarrow> True | Some m \<Rightarrow> m < 1 \<or> 12 < m)
   \<and> filter is_file_op
        (run_cli (sample_env (sample_frame scenario_dates) stable_argsort)
           [''main.py'', ''donors.csv'', ''13''] [])
       = [PathExists ([''main.py'', ''donors.csv'', ''13''] ! 1)]"
proof -
  have 1: "length [''main.py'', ''donors.csv'', ''13''] > 2" by simp
  have 2: "case py_int ([''main.py'', ''donors.csv'', ''13''] ! 2) of
         None \<Rightarrow> True | Some m \<Rightarrow> m < 1 \<or> 12 < m"
    by code_simp
  show ?thesis
    using run_cli_bad_month [OF 1 2] 1 2 by simp
qed

text \<open>
  C9 as stated fails: with the month argument 13, the existence of the input path is
  checked before the month is rejected.
\<close>

theorem run_cli_checks_file_first_counterexample:
  "run_cli (sample_env (sample_frame scenario_dates) stable_argsort)
     [''main.py'', ''donors.csv'', ''13''] []
   = [Print ''CLI Mode'', Print ''========================================'',
      PathExists ''donors.csv'', Print ''Error: Month must be between 1 and 12'']"
  by code_simp

text \<open>
  C10. For a target month outside 1 to 12, \<open>save_filtered_csv\<close> fails on the look-up of
  the month name and writes nothing; for a month from 1 to 12 the look-up succeeds and
  the one write goes to the file named after the month.
\<close>

theorem save_filtered_csv_month_range:
  "(target_month < 1 \<or> 12 < target_month \<longrightarrow>
      save_filtered_csv e filtered_df target_month output_dir
        = (Inl (MonthKeyError target_month), []))
   \<and> (1 \<le> target_month \<and> target_month \<le> 12 \<longrightarrow>
      (\<exists>month_name. map_of MONTH_NAMES target_month = Some month_name
         \<and> snd (save_filtered_csv e filtered_df target_month output_dir)
             = [ToCsv (path_join output_dir (month_name @ '' New EN Monthly Donors.csv''))
                  filtered_df]))"
proof (intro conjI impI)
  assume "target_month < 1 \<or> 12 < target_month"
  then show "save_filtered_csv e filtered_df target_month output_dir
        = (Inl (MonthKeyError target_month), [])"
    by (simp add: save_filtered_csv_def month_names_none)
next
  assume "1 \<le> target_month \<and> target_month \<le> 12"
  then obtain name where n: "map_of MONTH_NAMES target_month = Some name"
    using month_names_some by blast
  have "snd (save_filtered_csv e filtered_df target_month output_dir)
             = [ToCsv (path_join output_dir (name @ '' New EN Monthly Donors.csv'')) filtered_df]"
    by (simp add: save_filtered_csv_def n Let_def split: option.splits)
  then show "\<exists>month_name. map_of MONTH_NAMES target_month = Some month_name
         \<and> snd (save_filtered_csv e filtered_df target_month output_dir)
             = [ToCsv (path_join output_dir (month_name @ '' New EN Monthly Donors.csv''))
                  filtered_df]"
    using n by simp
qed

theorem save_filtered_csv_month_range_witness:
  "((13::int) < 1 \<or> 12 < (13::int))
   \<and> save_filtered_csv (sample_env no_date_frame stable_argsort) no_date_frame 13 ''.''
       = (Inl (MonthKeyError 13), [])
   \<and> ((1::int) \<le> 3 \<and> (3::int) \<le> 12)
   \<and> snd (save_filtered_csv (sample_env no_date_frame stable_argsort) no_date_frame 3 ''.'')
       = [ToCsv ''./March New EN Monthly Donors.csv'' no_date_frame]"
  using save_filtered_csv_month_range [of 13 "sample_env no_date_frame stable_argsort" no_date_frame "''.''"]
    save_filtered_csv_month_range [of 3 "sample_env no_date_frame stable_argsort" no_date_frame "''.''"]
  by (simp add: MONTH_NAMES_def path_join_def)

end
